theory Spec2Isabelle
  imports Complex_Main "HOL-Library.Log_Nat" "HOL-Library.Multiset"
begin

section \<open>JavaScript numbers\<close>

text \<open>
  The report service computes with JavaScript numbers, which are IEEE-754 binary64
  values. A number is modelled as \<open>NaN\<close>, one of the two infinities, or a finite
  value given by the rational it denotes. The two zeros are identified: the code never
  distinguishes them (\<open>-0 || 0\<close> is \<open>0\<close>, \<open>(-0).toFixed(2)\<close> is \<open>0.00\<close>,
  and a sum that starts at \<open>0\<close> is never \<open>-0\<close>).
  Every arithmetic operation computes the exact rational result and rounds it to the
  nearest binary64 value, ties to even, as the hardware does.
\<close>

datatype jsnum = NaN | PosInf | NegInf | Fin rat

text \<open>\<open>ilog2 a\<close> is the binary exponent of a positive rational: \<open>2^k \<le> a < 2^(k+1)\<close>.\<close>

definition ilog2 :: "rat \<Rightarrow> int" where
  "ilog2 a = (let k = bitlen (fst (quotient_of a)) - bitlen (snd (quotient_of a))
              in if 2 powi k \<le> a then k else k - 1)"

definition round_half_even :: "rat \<Rightarrow> int" where
  "round_half_even x =
     (let f = \<lfloor>x\<rfloor>; d = x - of_int f
      in if d < 1 / 2 then f
         else if 1 / 2 < d then f + 1
         else if even f then f else f + 1)"

text \<open>
  Rounding to binary64. A positive magnitude \<open>a\<close> is rounded to a multiple of
  \<open>2^e\<close>, where \<open>e\<close> is the exponent of its last place: 53 significant bits, and
  never below \<open>-1074\<close> (subnormals). The result overflows to infinity when it
  reaches \<open>2^1024\<close>.
\<close>

definition lastplace :: "rat \<Rightarrow> int" where
  "lastplace a = max (ilog2 a - 52) (- 1074)"

definition nearest :: "rat \<Rightarrow> rat" where
  "nearest a = of_int (round_half_even (a / 2 powi lastplace a)) * 2 powi lastplace a"

definition round64 :: "rat \<Rightarrow> jsnum" where
  "round64 q =
     (if q = 0 then Fin 0
      else if 1024 \<le> ilog2 (nearest \<bar>q\<bar>) then (if 0 < q then PosInf else NegInf)
      else Fin (if 0 < q then nearest \<bar>q\<bar> else - nearest \<bar>q\<bar>))"

text \<open>A decimal literal of the source text denotes the nearest binary64 value.\<close>

definition lit :: "rat \<Rightarrow> jsnum" where
  "lit q = round64 q"

fun jadd :: "jsnum \<Rightarrow> jsnum \<Rightarrow> jsnum" where
  "jadd NaN _ = NaN"
| "jadd _ NaN = NaN"
| "jadd PosInf NegInf = NaN"
| "jadd NegInf PosInf = NaN"
| "jadd PosInf _ = PosInf"
| "jadd _ PosInf = PosInf"
| "jadd NegInf _ = NegInf"
| "jadd _ NegInf = NegInf"
| "jadd (Fin a) (Fin b) = round64 (a + b)"

fun jneg :: "jsnum \<Rightarrow> jsnum" where
  "jneg NaN = NaN"
| "jneg PosInf = NegInf"
| "jneg NegInf = PosInf"
| "jneg (Fin a) = Fin (- a)"

definition jsub :: "jsnum \<Rightarrow> jsnum \<Rightarrow> jsnum" where
  "jsub a b = jadd a (jneg b)"

text \<open>The sign of a number: \<open>1\<close>, \<open>0\<close> or \<open>-1\<close>; \<open>NaN\<close> has none.\<close>

fun jsign :: "jsnum \<Rightarrow> int" where
  "jsign NaN = 0"
| "jsign PosInf = 1"
| "jsign NegInf = - 1"
| "jsign (Fin a) = (if 0 < a then 1 else if a < 0 then - 1 else 0)"

fun jmul :: "jsnum \<Rightarrow> jsnum \<Rightarrow> jsnum" where
  "jmul NaN _ = NaN"
| "jmul _ NaN = NaN"
| "jmul (Fin a) (Fin b) = round64 (a * b)"
| "jmul x y =
     (if jsign x * jsign y = 0 then NaN
      else if 0 < jsign x * jsign y then PosInf else NegInf)"

text \<open>
  Division. A zero divisor is taken as \<open>+0\<close>; the code only ever divides by a row
  count, which is at least \<open>1\<close>.
\<close>

fun jdiv :: "jsnum \<Rightarrow> jsnum \<Rightarrow> jsnum" where
  "jdiv NaN _ = NaN"
| "jdiv _ NaN = NaN"
| "jdiv (Fin a) (Fin b) =
     (if b = 0 then (if a = 0 then NaN else if 0 < a then PosInf else NegInf)
      else round64 (a / b))"
| "jdiv (Fin a) _ = Fin 0"
| "jdiv x (Fin b) = (if 0 \<le> jsign x * jsign (Fin b) \<and> (b \<noteq> 0 \<or> x = PosInf) then PosInf else NegInf)"
| "jdiv _ _ = NaN"

text \<open>The relational operators: every comparison with \<open>NaN\<close> is false.\<close>

fun jless :: "jsnum \<Rightarrow> jsnum \<Rightarrow> bool" where
  "jless NaN _ = False"
| "jless _ NaN = False"
| "jless _ NegInf = False"
| "jless NegInf _ = True"
| "jless PosInf _ = False"
| "jless _ PosInf = True"
| "jless (Fin a) (Fin b) = (a < b)"

definition jgreater :: "jsnum \<Rightarrow> jsnum \<Rightarrow> bool" where
  "jgreater a b = jless b a"

definition jle :: "jsnum \<Rightarrow> jsnum \<Rightarrow> bool" where
  "jle a b = (a \<noteq> NaN \<and> b \<noteq> NaN \<and> \<not> jless b a)"

text \<open>\<open>Math.max\<close> and \<open>Math.min\<close> of two arguments: \<open>NaN\<close> if either is.\<close>

definition Math_max :: "jsnum \<Rightarrow> jsnum \<Rightarrow> jsnum" where
  "Math_max a b = (if a = NaN \<or> b = NaN then NaN else if jless a b then b else a)"

definition Math_min :: "jsnum \<Rightarrow> jsnum \<Rightarrow> jsnum" where
  "Math_min a b = (if a = NaN \<or> b = NaN then NaN else if jless b a then b else a)"

text \<open>\<open>Math.round\<close>: the nearest integer, a tie going towards \<open>+\<infinity>\<close>.\<close>

fun Math_round :: "jsnum \<Rightarrow> jsnum" where
  "Math_round (Fin a) = Fin (of_int \<lfloor>a + 1 / 2\<rfloor>)"
| "Math_round x = x"

section \<open>JavaScript values and the coercion \<open>Number(v) || 0\<close>\<close>

text \<open>
  A quantity or price field holds whatever the form put there: a number, or a string,
  or nothing. Strings are sequences of code units below 256.
\<close>

datatype jsval = JUndefined | JNull | JBool bool | JNumber jsnum | JString string

text \<open>White space as \<open>trim\<close> and \<open>Number\<close> see it: TAB, LF, VT, FF, CR, SP, NBSP.\<close>

definition is_ws :: "char \<Rightarrow> bool" where
  "is_ws c = ((of_char c :: nat) \<in> {9, 10, 11, 12, 13, 32, 160})"

definition trim :: "string \<Rightarrow> string" where
  "trim s = rev (dropWhile is_ws (rev (dropWhile is_ws s)))"

definition digit_of :: "char \<Rightarrow> nat option" where
  "digit_of c =
     (let n = (of_char c :: nat)
      in if 48 \<le> n \<and> n \<le> 57 then Some (n - 48)
         else if 97 \<le> n \<and> n \<le> 102 then Some (n - 87)
         else if 65 \<le> n \<and> n \<le> 70 then Some (n - 55)
         else None)"

fun digits_val :: "nat \<Rightarrow> string \<Rightarrow> nat \<Rightarrow> nat option" where
  "digits_val b [] acc = Some acc"
| "digits_val b (c # cs) acc =
     (case digit_of c of
        None \<Rightarrow> None
      | Some d \<Rightarrow> if d < b then digits_val b cs (acc * b + d) else None)"

text \<open>One or more digits of the base, or nothing.\<close>

definition parse_digits :: "nat \<Rightarrow> string \<Rightarrow> nat option" where
  "parse_digits b s = (if s = [] then None else digits_val b s 0)"

text \<open>Digits that may be absent count as zero.\<close>

definition parse_digits_opt :: "string \<Rightarrow> nat option" where
  "parse_digits_opt s = digits_val 10 s 0"

text \<open>The exponent part after \<open>e\<close>: an optional sign and at least one digit.\<close>

definition parse_signed :: "string \<Rightarrow> int option" where
  "parse_signed s =
     (case s of
        [] \<Rightarrow> None
      | c # cs \<Rightarrow>
          if c = CHR ''-'' then map_option (\<lambda>n. - int n) (parse_digits 10 cs)
          else if c = CHR ''+'' then map_option int (parse_digits 10 cs)
          else map_option int (parse_digits 10 s))"

text \<open>
  An unsigned decimal literal: digits, an optional fraction, an optional exponent; the
  result is its exact value.
\<close>

definition parse_decimal :: "string \<Rightarrow> rat option" where
  "parse_decimal s =
     (let is_e = (\<lambda>c. c = CHR ''e'' \<or> c = CHR ''E'');
          m = takeWhile (\<lambda>c. \<not> is_e c) s;
          ex = dropWhile (\<lambda>c. \<not> is_e c) s;
          ip = takeWhile (\<lambda>c. c \<noteq> CHR ''.'') m;
          fr = dropWhile (\<lambda>c. c \<noteq> CHR ''.'') m;
          mant = (if fr = [] then map_option of_nat (parse_digits 10 ip)
                  else if ip = [] \<and> tl fr = [] then None
                  else (case (parse_digits_opt ip, parse_digits_opt (tl fr)) of
                          (Some i, Some f) \<Rightarrow> Some (of_nat i + of_nat f / 10 ^ length (tl fr))
                        | _ \<Rightarrow> None));
          expo = (if ex = [] then Some 0 else parse_signed (tl ex))
      in case (mant, expo) of
           (Some v, Some k) \<Rightarrow> Some (v * 10 powi k)
         | _ \<Rightarrow> None)"

text \<open>
  \<open>StringToNumber\<close>: white space is trimmed; the empty string is \<open>0\<close>; then a signed
  decimal literal or \<open>Infinity\<close>, or an unsigned binary, octal or hexadecimal integer;
  anything else is \<open>NaN\<close>.
\<close>

definition StringToNumber :: "string \<Rightarrow> jsnum" where
  "StringToNumber str =
     (let s = trim str;
          pre = map of_char (take 2 s) :: nat list
      in if s = [] then Fin 0
         else if pre = [48, 120] \<or> pre = [48, 88] then
           (case parse_digits 16 (drop 2 s) of None \<Rightarrow> NaN | Some n \<Rightarrow> round64 (of_nat n))
         else if pre = [48, 111] \<or> pre = [48, 79] then
           (case parse_digits 8 (drop 2 s) of None \<Rightarrow> NaN | Some n \<Rightarrow> round64 (of_nat n))
         else if pre = [48, 98] \<or> pre = [48, 66] then
           (case parse_digits 2 (drop 2 s) of None \<Rightarrow> NaN | Some n \<Rightarrow> round64 (of_nat n))
         else
           (let neg = (hd s = CHR ''-'');
                u = (if hd s = CHR ''-'' \<or> hd s = CHR ''+'' then tl s else s)
            in if u = ''Infinity'' then (if neg then NegInf else PosInf)
               else (case parse_decimal u of
                       None \<Rightarrow> NaN
                     | Some v \<Rightarrow> round64 (if neg then - v else v))))"

text \<open>\<open>Number(v)\<close> for the values a field can hold.\<close>

fun Number :: "jsval \<Rightarrow> jsnum" where
  "Number JUndefined = NaN"
| "Number JNull = Fin 0"
| "Number (JBool b) = (if b then Fin 1 else Fin 0)"
| "Number (JNumber n) = n"
| "Number (JString s) = StringToNumber s"

text \<open>\<open>n || 0\<close>: the falsy numbers are \<open>NaN\<close> and zero.\<close>

definition orZero :: "jsnum \<Rightarrow> jsnum" where
  "orZero n = (if n = NaN \<or> n = Fin 0 then Fin 0 else n)"

section \<open>Formatting numbers\<close>

definition digit_char :: "int \<Rightarrow> char" where
  "digit_char d = char_of (48 + d)"

text \<open>The decimal digits of a non-negative integer.\<close>

function showInt :: "int \<Rightarrow> string" where
  "showInt n = (if n < 10 then [digit_char n] else showInt (n div 10) @ [digit_char (n mod 10)])"
  by pat_completeness auto
termination
  by (relation "measure nat") auto

declare showInt.simps [simp del]

definition is_integer :: "rat \<Rightarrow> bool" where
  "is_integer q = (q = of_int \<lfloor>q\<rfloor>)"

text \<open>
  \<open>Number::toString\<close>. JavaScript prints the shortest digits that read back as the
  same number. For an integer of magnitude below \<open>2^53\<close> these are its decimal digits:
  every integer near it is a number of its own. For every other finite number (an
  integer from \<open>2^53\<close> on, where digits are dropped and zeros padded, or a fraction) the
  rendering belongs to the language, not to this program: it is the parameter \<open>fmt\<close>.
\<close>

definition numToString :: "(rat \<Rightarrow> string) \<Rightarrow> jsnum \<Rightarrow> string" where
  "numToString fmt x =
     (case x of
        NaN \<Rightarrow> ''NaN''
      | PosInf \<Rightarrow> ''Infinity''
      | NegInf \<Rightarrow> ''-Infinity''
      | Fin q \<Rightarrow>
          if is_integer q \<and> \<bar>q\<bar> < 2 ^ 53
          then (if q < 0 then ''-'' else []) @ showInt \<bar>\<lfloor>q\<rfloor>\<bar>
          else fmt q)"

text \<open>
  \<open>x.toFixed(2)\<close>: below \<open>10^21\<close> the integer \<open>n\<close> nearest to \<open>100 |x|\<close> (the larger
  one at a tie) is printed with a point before its last two digits.
\<close>

definition toFixed2 :: "(rat \<Rightarrow> string) \<Rightarrow> jsnum \<Rightarrow> string" where
  "toFixed2 fmt x =
     (case x of
        Fin q \<Rightarrow>
          if 10 ^ 21 \<le> \<bar>q\<bar> then numToString fmt x
          else (let n = \<lfloor>\<bar>q\<bar> * 100 + 1 / 2\<rfloor>
                in (if q < 0 then ''-'' else []) @ showInt (n div 100) @ ''.''
                   @ [digit_char (n mod 100 div 10), digit_char (n mod 10)])
      | _ \<Rightarrow> numToString fmt x)"

section \<open>Data model\<close>

text \<open>
  \<open>types.ts\<close> is not among the sources; the records list the fields that
  \<open>reportService.ts\<close> and \<open>App.tsx\<close> read and write. Text fields are strings; the two
  quantities and the price are values that the code passes through \<open>Number\<close>.
\<close>

record ReportHeader =
  buyerName :: string
  supplierName :: string
  fileNo :: string
  invoiceNo :: string
  lcNumber :: string
  invoiceDate :: string
  billingDate :: string

record LineItem =
  item_id :: string
  fabricCode :: string
  itemDescription :: string
  color :: string
  hsCode :: string
  rcvdDate :: string
  challanNo :: string
  piNumber :: string
  unit :: string
  invoiceQty :: jsval
  rcvdQty :: jsval
  unitPrice :: jsval
  appstremeNo :: string

record Totals =
  totalInvoiceQty :: jsnum
  totalRcvdQty :: jsnum
  totalValue :: jsnum

section \<open>\<open>reportService.ts\<close>: totals and file names\<close>

text \<open>\<open>calculateTotals\<close> is a \<open>reduce\<close> from the left over the items.\<close>

definition calculateTotals :: "LineItem list \<Rightarrow> Totals" where
  "calculateTotals items =
     foldl (\<lambda>acc item.
        \<lparr> totalInvoiceQty = jadd (totalInvoiceQty acc) (orZero (Number (invoiceQty item))),
          totalRcvdQty = jadd (totalRcvdQty acc) (orZero (Number (rcvdQty item))),
          totalValue = jadd (totalValue acc)
            (jmul (orZero (Number (invoiceQty item))) (orZero (Number (unitPrice item)))) \<rparr>)
       \<lparr> totalInvoiceQty = Fin 0, totalRcvdQty = Fin 0, totalValue = Fin 0 \<rparr>
       items"

text \<open>
  \<open>generateReports\<close> builds the base file name. \<open>getFilenameDate\<close> lives in
  \<open>utils\<close>, which is not among the sources: it is a parameter.
\<close>

definition baseFilename ::
  "(string \<Rightarrow> string) \<Rightarrow> (rat \<Rightarrow> string) \<Rightarrow> ReportHeader \<Rightarrow> LineItem list \<Rightarrow> string" where
  "baseFilename getFilenameDate fmt header items =
     (let totals = calculateTotals items;
          totalValueStr = Math_round (totalValue totals);
          filenameDate = getFilenameDate (billingDate header)
      in ''Bill of Buyer '' @ buyerName header @ '' $'' @ numToString fmt totalValueStr
         @ '' DATE-'' @ filenameDate)"

text \<open>The names under which \<open>generatePDF\<close> and \<open>generateExcel\<close> save their file.\<close>

definition pdfSaveName :: "string \<Rightarrow> string" where
  "pdfSaveName filename = filename @ ''.pdf''"

definition xlsxSaveName :: "string \<Rightarrow> string" where
  "xlsxSaveName filename = filename @ ''.xlsx''"

section \<open>\<open>reportService.ts\<close>: the PDF renderer\<close>

text \<open>
  Table cells are strings or numbers. The description cell is built from the item's
  description, colour and H.S. code.
\<close>

datatype cell = CStr string | CNum jsnum | CNull

fun join :: "string \<Rightarrow> string list \<Rightarrow> string" where
  "join sep [] = []"
| "join sep [x] = x"
| "join sep (x # y # ys) = x @ sep @ join sep (y # ys)"

definition describe :: "LineItem \<Rightarrow> string" where
  "describe item =
     (let description = (if itemDescription item \<noteq> [] then itemDescription item else []);
          details =
            (if color item \<noteq> [] \<and> trim (color item) \<noteq> [] then [''Color: '' @ color item] else [])
            @ (if hsCode item \<noteq> [] \<and> trim (hsCode item) \<noteq> []
               then [''H.S Code: '' @ hsCode item] else [])
      in if 0 < length details then description @ [CHR 0x0A] @ join '', '' details
         else description)"

text \<open>The numeric line total of one row: \<open>invoiceQty * unitPrice\<close> after coercion.\<close>

definition totalRowVal :: "LineItem \<Rightarrow> jsnum" where
  "totalRowVal item =
     (let invoiceQty = orZero (Number (invoiceQty item));
          unitPrice = orZero (Number (unitPrice item))
      in jmul invoiceQty unitPrice)"

definition pdfRow :: "(rat \<Rightarrow> string) \<Rightarrow> LineItem \<Rightarrow> cell list" where
  "pdfRow fmt item =
     (let invoiceQty = orZero (Number (invoiceQty item));
          rcvdQty = orZero (Number (rcvdQty item));
          unitPrice = orZero (Number (unitPrice item));
          totalRowVal = jmul invoiceQty unitPrice
      in [CStr (fabricCode item), CStr (describe item), CStr (rcvdDate item),
          CStr (challanNo item), CStr (piNumber item), CStr (unit item),
          CNum invoiceQty, CNum rcvdQty,
          CStr (toFixed2 fmt unitPrice), CStr (toFixed2 fmt totalRowVal),
          CStr (appstremeNo item)])"

definition footerRow :: "(rat \<Rightarrow> string) \<Rightarrow> Totals \<Rightarrow> cell list" where
  "footerRow fmt totals =
     [CStr [], CStr [], CStr [], CStr [], CStr [], CStr ''TOTAL:'',
      CStr (toFixed2 fmt (totalInvoiceQty totals)),
      CStr (toFixed2 fmt (totalRcvdQty totals)),
      CStr [],
      CStr (toFixed2 fmt (totalValue totals)),
      CStr []]"

definition tableColumn :: "string list" where
  "tableColumn =
     [''Fabric Code'', ''Item Description'', ''Rcvd Date'', ''Challan No'', ''Pi Number'',
      ''Unit'', ''Invoice Qty'', ''Rcvd Qty'', ''Unit Price $'', ''Total Value'',
      ''Appstreme No.'' @ [CHR 0x0A] @ ''(Receipt no)'']"

definition tableRows :: "(rat \<Rightarrow> string) \<Rightarrow> LineItem list \<Rightarrow> Totals \<Rightarrow> cell list list" where
  "tableRows fmt items totals = map (pdfRow fmt) items @ [footerRow fmt totals]"

text \<open>
  Layout constants of \<open>generatePDF\<close>, in millimetres. The page size comes from jsPDF
  and is a parameter of everything that depends on it.
\<close>

definition infoBlockY :: jsnum where "infoBlockY = Fin 32"
definition lineHeight :: jsnum where "lineHeight = Fin 5"
definition infoBlockHeight :: jsnum where "infoBlockHeight = jmul lineHeight (Fin 4)"
definition tableStartY :: jsnum where
  "tableStartY = jadd (jadd infoBlockY infoBlockHeight) (Fin 4)"
definition signatureGapSize :: jsnum where "signatureGapSize = Fin 35"
definition signatureHeight :: jsnum where "signatureHeight = Fin 20"
definition bottomMargin :: jsnum where "bottomMargin = Fin 8"

definition signatureBlockY :: "jsnum \<Rightarrow> jsnum" where
  "signatureBlockY pageHeight = jsub (jsub pageHeight signatureHeight) bottomMargin"

definition maxTableHeight :: "jsnum \<Rightarrow> jsnum" where
  "maxTableHeight pageHeight =
     jsub (jsub (signatureBlockY pageHeight) tableStartY) signatureGapSize"

text \<open>
  Array lengths and row indices are integers far below \<open>2^53\<close>, where JavaScript
  arithmetic is exact; they are natural numbers and integers here.
\<close>

definition rowCount :: "LineItem list \<Rightarrow> nat" where
  "rowCount items = length items + 2"

record Layout =
  finalFontSize :: jsnum
  finalCellPadding :: jsnum
  finalMinCellHeight :: jsnum

definition layout :: "jsnum \<Rightarrow> nat \<Rightarrow> Layout" where
  "layout maxHeight rows =
     (let n = Fin (of_nat rows);
          sel =
            (if rows \<le> 5 then
               \<lparr> finalFontSize = Fin 10, finalCellPadding = Fin 2,
                 finalMinCellHeight = jdiv maxHeight n \<rparr>
             else if rows \<le> 15 then
               \<lparr> finalFontSize = Fin 9, finalCellPadding = lit (175 / 100),
                 finalMinCellHeight = Math_max (Fin 8) (jdiv maxHeight n) \<rparr>
             else if rows \<le> 25 then
               \<lparr> finalFontSize = Fin 8, finalCellPadding = lit (15 / 10),
                 finalMinCellHeight = Math_max (Fin 6) (jdiv maxHeight n) \<rparr>
             else
               \<lparr> finalFontSize = Fin 7, finalCellPadding = Fin 1,
                 finalMinCellHeight = Math_max (Fin 5) (jdiv maxHeight n) \<rparr>)
      in sel \<lparr> finalFontSize := Math_max (Fin 5) (finalFontSize sel),
               finalMinCellHeight := Math_max (Fin 5) (finalMinCellHeight sel) \<rparr>)"

text \<open>
  The document. jsPDF keeps a list of pages and a current page; what is drawn goes to
  the current page. \<open>autoTable\<close> is a library: how many further pages the table runs
  onto and the height at which it ends on its last page are the parameter \<open>tbl\<close>.
\<close>

datatype drawing =
    Line jsnum jsnum jsnum jsnum
  | Text string jsnum jsnum
  | Table "string list" "cell list list" Layout jsnum

record Doc =
  pages :: nat
  page :: nat
  drawn :: "(nat \<times> drawing) list"
  finalY :: jsnum

definition newDoc :: Doc where
  "newDoc = \<lparr> pages = 1, page = 1, drawn = [], finalY = NaN \<rparr>"

definition addPage :: "Doc \<Rightarrow> Doc" where
  "addPage doc = doc \<lparr> pages := pages doc + 1, page := pages doc + 1 \<rparr>"

definition draw :: "drawing \<Rightarrow> Doc \<Rightarrow> Doc" where
  "draw d doc = doc \<lparr> drawn := drawn doc @ [(page doc, d)] \<rparr>"

definition autoTable ::
  "nat \<times> jsnum \<Rightarrow> jsnum \<Rightarrow> string list \<Rightarrow> cell list list \<Rightarrow> Layout \<Rightarrow> Doc \<Rightarrow> Doc" where
  "autoTable tbl startY head body lay doc =
     (draw (Table head body lay startY) doc)
       \<lparr> pages := pages doc + fst tbl, page := pages doc + fst tbl, finalY := snd tbl \<rparr>"

text \<open>The signature block: two lines and two labels at height \<open>sigY\<close>.\<close>

definition signatureBlock :: "jsnum \<Rightarrow> jsnum \<Rightarrow> drawing list" where
  "signatureBlock pageWidth sigY =
     [Line (Fin 20) sigY (Fin 70) sigY,
      Text ''Prepared By'' (Fin 30) (jadd sigY (Fin 4)),
      Line (jsub pageWidth (Fin 70)) sigY (jsub pageWidth (Fin 20)) sigY,
      Text ''Store In-Charge'' (jsub pageWidth (Fin 65)) (jadd sigY (Fin 4))]"

text \<open>
  The end of \<open>generatePDF\<close>: a new page if the table ends below
  \<open>signatureBlockY - 10\<close>, then the signature block on the current page.
\<close>

definition signaturePage :: "jsnum \<Rightarrow> Doc \<Rightarrow> Doc" where
  "signaturePage pageHeight doc =
     (let lastTableY = finalY doc
      in if jgreater lastTableY (jsub (signatureBlockY pageHeight) (Fin 10))
         then addPage doc else doc)"

definition generatePDF ::
  "(rat \<Rightarrow> string) \<Rightarrow> jsnum \<Rightarrow> jsnum \<Rightarrow> nat \<times> jsnum \<Rightarrow>
   ReportHeader \<Rightarrow> LineItem list \<Rightarrow> Totals \<Rightarrow> string \<Rightarrow> Doc \<times> string" where
  "generatePDF fmt pageWidth pageHeight tbl header items totals filename =
     (let lay = layout (maxTableHeight pageHeight) (rowCount items);
          doc1 = autoTable tbl tableStartY tableColumn (tableRows fmt items totals) lay newDoc;
          doc2 = signaturePage pageHeight doc1;
          sigY = signatureBlockY pageHeight;
          doc3 = fold draw (signatureBlock pageWidth sigY) doc2
      in (doc3, pdfSaveName filename))"

text \<open>
  Where the table is: on the pages from \<open>p1\<close> to \<open>p2\<close>, from \<open>startY\<close> on the
  first and down to \<open>endY\<close> on the last. A drawing touches the table when it lies on
  one of these pages at a height the table occupies.
\<close>

fun height_of :: "drawing \<Rightarrow> jsnum" where
  "height_of (Line x1 y1 x2 y2) = y1"
| "height_of (Text s x y) = y"
| "height_of (Table h b l y) = y"

definition touches :: "nat \<Rightarrow> jsnum \<Rightarrow> nat \<Rightarrow> jsnum \<Rightarrow> nat \<times> drawing \<Rightarrow> bool" where
  "touches p1 startY p2 endY pd =
     ((p1 < fst pd \<or> (fst pd = p1 \<and> jle startY (height_of (snd pd))))
      \<and> (fst pd < p2 \<or> (fst pd = p2 \<and> jle (height_of (snd pd)) endY)))"

section \<open>The PDF renderer of \<open>unnamed/part_001\<close>\<close>

text \<open>
  A second copy of the service has other constants, computes the row height by one
  formula, and draws the signature block without looking at the table's end.
\<close>

definition infoBlockY_alt :: jsnum where "infoBlockY_alt = Fin 26"
definition lineHeight_alt :: jsnum where "lineHeight_alt = Fin 6"
definition signatureHeight_alt :: jsnum where "signatureHeight_alt = Fin 10"
definition bottomMargin_alt :: jsnum where "bottomMargin_alt = Fin 7"
definition signatureGap_alt :: jsnum where "signatureGap_alt = Fin 20"

definition signatureBlockY_alt :: "jsnum \<Rightarrow> jsnum" where
  "signatureBlockY_alt pageHeight = jsub (jsub pageHeight signatureHeight_alt) bottomMargin_alt"

definition tableStartY_alt :: jsnum where
  "tableStartY_alt = jadd (jadd infoBlockY_alt (jmul lineHeight_alt (Fin 5))) (Fin 4)"

definition availableTableHeight_alt :: "jsnum \<Rightarrow> jsnum" where
  "availableTableHeight_alt pageHeight =
     jsub (jsub (signatureBlockY_alt pageHeight) tableStartY_alt) signatureGap_alt"

definition rowCount_alt :: "LineItem list \<Rightarrow> nat" where
  "rowCount_alt items = length items + 1"

definition layout_alt :: "jsnum \<Rightarrow> nat \<Rightarrow> Layout" where
  "layout_alt availableHeight rows =
     (let rowHeight = Math_max (Fin 6)
            (Math_min (Fin 12) (jdiv availableHeight (Fin (of_nat rows))))
      in if 20 < rows
         then \<lparr> finalFontSize = Fin 7, finalCellPadding = lit (8 / 10),
                finalMinCellHeight = rowHeight \<rparr>
         else \<lparr> finalFontSize = Fin 8, finalCellPadding = lit (12 / 10),
                finalMinCellHeight = rowHeight \<rparr>)"

definition signatureBlock_alt :: "jsnum \<Rightarrow> jsnum \<Rightarrow> drawing list" where
  "signatureBlock_alt pageWidth sigY =
     [Line (jadd (Fin 10) (Fin 5)) sigY (jadd (Fin 10) (Fin 55)) sigY,
      Text ''Prepared By'' (jadd (Fin 10) (Fin 15)) (jadd sigY (Fin 5)),
      Line (jsub (jsub pageWidth (Fin 10)) (Fin 55)) sigY
           (jsub (jsub pageWidth (Fin 10)) (Fin 5)) sigY,
      Text ''Store In-Charge'' (jsub (jsub pageWidth (Fin 10)) (Fin 48)) (jadd sigY (Fin 5))]"

text \<open>
  The table of this copy has the same shape; its cell texts differ in formatting only
  and are left as a parameter \<open>body\<close>.
\<close>

definition generatePDF_alt ::
  "jsnum \<Rightarrow> jsnum \<Rightarrow> nat \<times> jsnum \<Rightarrow> string list \<Rightarrow> cell list list \<Rightarrow>
   LineItem list \<Rightarrow> string \<Rightarrow> Doc \<times> string" where
  "generatePDF_alt pageWidth pageHeight tbl head body items filename =
     (let lay = layout_alt (availableTableHeight_alt pageHeight) (rowCount_alt items);
          doc1 = autoTable tbl tableStartY_alt head body lay newDoc;
          doc2 = fold draw (signatureBlock_alt pageWidth (signatureBlockY_alt pageHeight)) doc1
      in (doc2, pdfSaveName filename))"

text \<open>
  The page height that jsPDF reports for \<open>format: 'a4'\<close>, \<open>orientation: 'landscape'\<close>,
  \<open>unit: 'mm'\<close>: 595.28 points divided by the scale factor \<open>72 / 25.4\<close>.
\<close>

definition a4LandscapeHeight :: jsnum where
  "a4LandscapeHeight = jdiv (lit (59528 / 100)) (jdiv (Fin 72) (lit (254 / 10)))"

section \<open>\<open>reportService.ts\<close>: the spreadsheet renderer\<close>

definition excelRow :: "LineItem \<Rightarrow> cell list" where
  "excelRow item =
     (let invoiceQty = orZero (Number (invoiceQty item));
          rcvdQty = orZero (Number (rcvdQty item));
          unitPrice = orZero (Number (unitPrice item));
          totalRowVal = jmul invoiceQty unitPrice
      in [CStr (fabricCode item), CStr (describe item), CStr (rcvdDate item),
          CStr (challanNo item), CStr (piNumber item), CStr (unit item),
          CNum invoiceQty, CNum rcvdQty, CNum unitPrice, CNum totalRowVal,
          CStr (appstremeNo item)])"

definition excelHeaderRow :: "cell list" where
  "excelHeaderRow =
     map CStr [''Fabric Code'', ''Item Description'', ''Rcvd Date'', ''Challan No'',
       ''Pi Number'', ''Unit'', ''Invoice Qty'', ''Rcvd Qty'', ''Unit Price $'',
       ''Total Value'', ''Appstreme No.'' @ [CHR 0x0A] @ ''(Receipt no)'']"

definition excelFooterRow :: "Totals \<Rightarrow> cell list" where
  "excelFooterRow totals =
     [CStr [], CStr [], CStr [], CStr [], CStr ''Total:'', CStr ''YDS'',
      CNum (totalInvoiceQty totals), CNum (totalRcvdQty totals), CStr [],
      CNum (totalValue totals), CStr []]"

definition sigRow :: "cell list" where
  "sigRow = (replicate 11 (CStr [])) [1 := CStr ''Prepared By'', 9 := CStr ''Store In-Charge'']"

text \<open>The grid up to the point where \<open>sigRowIndex\<close> is read, and the finished grid.\<close>

definition wsData_body :: "ReportHeader \<Rightarrow> LineItem list \<Rightarrow> Totals \<Rightarrow> cell list list" where
  "wsData_body header items totals =
     [[CStr ''Tusuka Trousers Ltd.''],
      [CStr ''Neelngar, Konabari, Gazipur''],
      [CStr ''Inventory Report''],
      [],
      [CStr ''Buyer Name :'', CStr (buyerName header), CNull, CNull, CNull, CNull, CNull,
       CStr ''Invoice Date :'', CStr (invoiceDate header)],
      [CStr ''Supplier Name:'', CStr (supplierName header), CNull, CNull, CNull, CNull, CNull,
       CStr ''Billing Date :'', CStr (billingDate header)],
      [CStr ''File No :'', CStr (fileNo header)],
      [CStr ''Invoice No :'', CStr (invoiceNo header)],
      [CStr ''L/C Number :'', CStr (lcNumber header)],
      [],
      excelHeaderRow]
     @ map excelRow items
     @ [excelFooterRow totals]
     @ [[], [], [], []]"

definition sigRowIndex :: "ReportHeader \<Rightarrow> LineItem list \<Rightarrow> Totals \<Rightarrow> nat" where
  "sigRowIndex header items totals = length (wsData_body header items totals)"

definition wsData :: "ReportHeader \<Rightarrow> LineItem list \<Rightarrow> Totals \<Rightarrow> cell list list" where
  "wsData header items totals = wsData_body header items totals @ [sigRow]"

text \<open>The row indices that the styling code uses.\<close>

definition headerRowIndex :: int where "headerRowIndex = 10"
definition startDataRow :: int where "startDataRow = 11"

definition endDataRow :: "LineItem list \<Rightarrow> int" where
  "endDataRow items = startDataRow + int (length items) - 1"

definition footerRowIndex :: "LineItem list \<Rightarrow> int" where
  "footerRowIndex items = endDataRow items + 1"

text \<open>
  The sheet. \<open>aoa_to_sheet\<close> makes a cell of every entry of the grid but \<open>null\<close>, so a
  sheet is a grid in which \<open>CNull\<close> stands for no cell. Writing the value of a cell
  creates the cell where there is none (\<open>sheet_add_aoa\<close> at that origin).
\<close>

definition pad :: "nat \<Rightarrow> 'a \<Rightarrow> 'a list \<Rightarrow> 'a list" where
  "pad n x xs = xs @ replicate (n - length xs) x"

definition setCell :: "nat \<Rightarrow> nat \<Rightarrow> cell \<Rightarrow> cell list list \<Rightarrow> cell list list" where
  "setCell r c v ws =
     (let rows = pad (r + 1) [] ws
      in rows [r := (pad (c + 1) CNull (rows ! r)) [c := v]])"

text \<open>
  \<open>if (!ws[ref]) sheet_add_aoa(ws, [[""]], {origin: ref})\<close>: a cell that is not there is
  created with the empty string.
\<close>

definition ensureCell :: "nat \<Rightarrow> nat \<Rightarrow> cell list list \<Rightarrow> cell list list" where
  "ensureCell r c ws =
     (if r < length ws \<and> c < length (ws ! r) \<and> ws ! r ! c \<noteq> CNull then ws
      else setCell r c (CStr []) ws)"

text \<open>
  \<open>generateExcel\<close> builds the sheet from the grid and styles it (styles, merges and
  column widths are not modelled). Styling the totals row creates its missing cells in
  columns 0 to 10. Then \<open>Prepared By\<close> is written into the first cell of the
  signature row and \<open>Store In-Charge\<close> into its ninth cell, and the workbook is saved.
  The function yields the saved sheet and the name of the file.
\<close>

definition generateExcel ::
  "ReportHeader \<Rightarrow> LineItem list \<Rightarrow> Totals \<Rightarrow> string \<Rightarrow> cell list list \<times> string" where
  "generateExcel header items totals filename =
     (let ws = wsData header items totals;
          r = sigRowIndex header items totals;
          ws0 = fold (ensureCell (nat (footerRowIndex items))) [0 ..< 11] ws;
          ws1 = setCell r 0 (CStr ''Prepared By'') (ensureCell r 0 ws0);
          ws2 = setCell r 8 (CStr ''Store In-Charge'') (ensureCell r 8 ws1)
      in (ws2, xlsxSaveName filename))"

section \<open>\<open>reportService.ts\<close>: the export\<close>

text \<open>
  \<open>generateReports\<close> computes the totals once, builds the base file name and runs
  both renderers with them.
\<close>

definition generateReports ::
  "(string \<Rightarrow> string) \<Rightarrow> (rat \<Rightarrow> string) \<Rightarrow> jsnum \<Rightarrow> jsnum \<Rightarrow> nat \<times> jsnum \<Rightarrow>
   ReportHeader \<Rightarrow> LineItem list \<Rightarrow> (Doc \<times> string) \<times> (cell list list \<times> string)" where
  "generateReports getFilenameDate fmt pageWidth pageHeight tbl header items =
     (let totals = calculateTotals items;
          filename = baseFilename getFilenameDate fmt header items
      in (generatePDF fmt pageWidth pageHeight tbl header items totals filename,
          generateExcel header items totals filename))"

section \<open>\<open>App.tsx\<close>: the rows of the form\<close>

text \<open>
  \<open>addNewRow\<close> appends a row with blank texts, unit \<open>YDS\<close> and zero numbers; the form
  then stores what \<open>parseFloat(value) || 0\<close> gives for a number field. The identifier
  is random and is a parameter.
\<close>

definition newRow :: "string \<Rightarrow> LineItem" where
  "newRow uuid =
     \<lparr> item_id = uuid, fabricCode = [], itemDescription = [], color = [], hsCode = [],
       rcvdDate = [], challanNo = [], piNumber = [], unit = ''YDS'',
       invoiceQty = JNumber (Fin 0), rcvdQty = JNumber (Fin 0), unitPrice = JNumber (Fin 0),
       appstremeNo = [] \<rparr>"

section \<open>What the specification says, for comparison\<close>

text \<open>
  The value of a field as the specification reads it: the number it holds, and zero
  when it holds none.
\<close>

definition field_value :: "jsval \<Rightarrow> jsnum" where
  "field_value v = (if Number v = NaN then Fin 0 else Number v)"

text \<open>The sum of a list of numbers, added up in list order in JavaScript arithmetic.\<close>

definition sum_js :: "jsnum list \<Rightarrow> jsnum" where
  "sum_js xs = foldl jadd (Fin 0) xs"

text \<open>The exact value of a finite number.\<close>

fun exact :: "jsnum \<Rightarrow> rat" where
  "exact (Fin q) = q"
| "exact _ = 0"

text \<open>A field that holds a whole number, zero or more.\<close>

definition whole :: "jsval \<Rightarrow> bool" where
  "whole v = (case field_value v of Fin q \<Rightarrow> is_integer q \<and> 0 \<le> q | _ \<Rightarrow> False)"

definition whole_item :: "LineItem \<Rightarrow> bool" where
  "whole_item item = (whole (invoiceQty item) \<and> whole (rcvdQty item) \<and> whole (unitPrice item))"

text \<open>The three totals in exact arithmetic.\<close>

definition exactInvoiceQty :: "LineItem list \<Rightarrow> rat" where
  "exactInvoiceQty items = (\<Sum>i\<leftarrow>items. exact (field_value (invoiceQty i)))"

definition exactRcvdQty :: "LineItem list \<Rightarrow> rat" where
  "exactRcvdQty items = (\<Sum>i\<leftarrow>items. exact (field_value (rcvdQty i)))"

definition exactValue :: "LineItem list \<Rightarrow> rat" where
  "exactValue items =
     (\<Sum>i\<leftarrow>items. exact (field_value (invoiceQty i)) * exact (field_value (unitPrice i)))"

text \<open>
  A field that holds no number, replaced by the number zero; an item with its three
  numeric fields so replaced.
\<close>

definition zeroed :: "jsval \<Rightarrow> jsval" where
  "zeroed v = (if Number v = NaN then JNumber (Fin 0) else v)"

definition zero_item :: "LineItem \<Rightarrow> LineItem" where
  "zero_item item =
     item \<lparr> invoiceQty := zeroed (invoiceQty item), rcvdQty := zeroed (rcvdQty item),
            unitPrice := zeroed (unitPrice item) \<rparr>"

text \<open>
  The quotient of a height by a row count, as a rational number; the tier of a row
  count as the specification names it (up to 5 rows, up to 15, up to 25, more); and the
  row height and font size that the two renderers select on an A4 landscape page.
\<close>

definition quot :: "rat \<Rightarrow> nat \<Rightarrow> rat" where
  "quot M rc = exact (jdiv (Fin M) (Fin (of_nat rc)))"

definition tier :: "nat \<Rightarrow> nat" where
  "tier rc = (if rc \<le> 5 then 0 else if rc \<le> 15 then 1 else if rc \<le> 25 then 2 else 3)"

definition rowHeight :: "nat \<Rightarrow> jsnum" where
  "rowHeight rc = finalMinCellHeight (layout (maxTableHeight a4LandscapeHeight) rc)"

definition fontSize :: "nat \<Rightarrow> jsnum" where
  "fontSize rc = finalFontSize (layout (maxTableHeight a4LandscapeHeight) rc)"

definition rowHeight_alt :: "nat \<Rightarrow> jsnum" where
  "rowHeight_alt rc =
     finalMinCellHeight (layout_alt (availableTableHeight_alt a4LandscapeHeight) rc)"

definition fontSize_alt :: "nat \<Rightarrow> jsnum" where
  "fontSize_alt rc =
     finalFontSize (layout_alt (availableTableHeight_alt a4LandscapeHeight) rc)"

section \<open>Facts about rounding\<close>

lemma powi2_less_iff: "(2::rat) powi m < 2 powi n \<longleftrightarrow> m < n"
proof
  assume "(2::rat) powi m < 2 powi n"
  show "m < n"
  proof (rule ccontr)
    assume "\<not> m < n"
    then have "(2::rat) powi n \<le> 2 powi m"
      by (intro power_int_increasing) simp_all
    with \<open>(2::rat) powi m < 2 powi n\<close> show False by simp
  qed
next
  assume "m < n"
  then show "(2::rat) powi m < 2 powi n"
    by (intro power_int_strict_increasing) simp_all
qed

lemma powi2_le_iff: "(2::rat) powi m \<le> 2 powi n \<longleftrightarrow> m \<le> n"
  using powi2_less_iff [of n m] by (simp add: not_less [symmetric])

lemma powi_bitlen_bounds:
  assumes "0 < p"
  shows "(2::rat) powi (bitlen p - 1) \<le> of_int p" and "of_int p < (2::rat) powi (bitlen p)"
proof -
  from assms have b: "2 ^ nat (bitlen p - 1) \<le> p" "p < 2 ^ nat (bitlen p)"
    using bitlen_bounds [of p] by auto
  from assms have b1: "1 \<le> bitlen p"
    by (auto simp: bitlen_alt_def)
  have "(2::rat) powi (bitlen p - 1) = of_int (2 ^ nat (bitlen p - 1))"
    using b1 by (simp add: power_int_nonneg_exp)
  also have "\<dots> \<le> of_int p"
    using b(1) by (simp only: of_int_le_iff)
  finally show "(2::rat) powi (bitlen p - 1) \<le> of_int p" .
  have "(of_int p :: rat) < of_int (2 ^ nat (bitlen p))"
    using b(2) by (simp only: of_int_less_iff)
  also have "\<dots> = (2::rat) powi (bitlen p)"
    using b1 by (simp add: power_int_nonneg_exp)
  finally show "of_int p < (2::rat) powi (bitlen p)" .
qed

lemma ilog2_raw:
  assumes "0 < a"
  defines "k \<equiv> bitlen (fst (quotient_of a)) - bitlen (snd (quotient_of a))"
  shows "2 powi (k - 1) < a" and "a < 2 powi (k + 1)"
proof -
  obtain p q where pq: "quotient_of a = (p, q)" by (cases "quotient_of a")
  then have q: "0 < q" and a: "a = of_int p / of_int q"
    by (auto simp: quotient_of_denom_pos quotient_of_div)
  from assms(1) a q have p: "0 < p"
    by (simp add: zero_less_divide_iff)
  let ?P = "of_int p :: rat" and ?Q = "of_int q :: rat"
  have Q: "0 < ?Q" using q by simp
  have k: "k = bitlen p - bitlen q" by (simp add: k_def pq)
  have "2 powi (k - 1) * ?Q < 2 powi (k - 1) * 2 powi (bitlen q)"
    using powi_bitlen_bounds(2) [OF q] by simp
  also have "\<dots> = 2 powi (bitlen p - 1)"
    by (simp add: k power_int_add [symmetric])
  also have "\<dots> \<le> ?P" by (rule powi_bitlen_bounds(1) [OF p])
  finally show "2 powi (k - 1) < a"
    using Q by (simp add: a pos_less_divide_eq)
  have "?P < 2 powi (bitlen p)" by (rule powi_bitlen_bounds(2) [OF p])
  also have "\<dots> = 2 powi (k + 1) * 2 powi (bitlen q - 1)"
    by (simp add: k power_int_add [symmetric])
  also have "\<dots> \<le> 2 powi (k + 1) * ?Q"
    using powi_bitlen_bounds(1) [OF q] by simp
  finally show "a < 2 powi (k + 1)"
    using Q by (simp add: a pos_divide_less_eq)
qed

lemma ilog2_bounds:
  assumes "0 < a"
  shows "2 powi (ilog2 a) \<le> a" and "a < 2 powi (ilog2 a + 1)"
  using ilog2_raw [OF assms] by (auto simp: ilog2_def Let_def less_imp_le)

lemma ilog2_unique:
  assumes "2 powi k \<le> a" and "a < 2 powi (k + 1)"
  shows "ilog2 a = k"
proof -
  have pos: "0 < a"
    using assms(1) by (rule less_le_trans [rotated]) simp
  note b = ilog2_bounds [OF pos]
  have "(2::rat) powi k < 2 powi (ilog2 a + 1)"
    using assms(1) b(2) by (rule le_less_trans)
  then have 1: "k < ilog2 a + 1"
    by (simp add: powi2_less_iff)
  have "(2::rat) powi (ilog2 a) < 2 powi (k + 1)"
    using b(1) assms(2) by (rule le_less_trans)
  then have 2: "ilog2 a < k + 1"
    by (simp add: powi2_less_iff)
  from 1 2 show ?thesis by simp
qed

lemma round_half_even_of_int: "round_half_even (of_int n) = n"
  by (simp add: round_half_even_def)

lemma round_half_even_le:
  assumes "x \<le> of_int n"
  shows "round_half_even x \<le> n"
proof -
  have f: "\<lfloor>x\<rfloor> \<le> n" using assms by (simp add: floor_le_iff)
  show ?thesis
  proof (cases "\<lfloor>x\<rfloor> = n")
    case True
    then have "x - of_int \<lfloor>x\<rfloor> \<le> 0" using assms by simp
    then have "x - of_int \<lfloor>x\<rfloor> < 1 / 2" by simp
    then show ?thesis using True by (simp add: round_half_even_def Let_def)
  next
    case False
    with f have "\<lfloor>x\<rfloor> + 1 \<le> n" by simp
    then show ?thesis using f by (simp add: round_half_even_def Let_def)
  qed
qed

lemma round_half_even_ge:
  assumes "of_int n \<le> x"
  shows "n \<le> round_half_even x"
proof -
  have "n \<le> \<lfloor>x\<rfloor>" using assms by (simp add: le_floor_iff)
  then show ?thesis by (simp add: round_half_even_def Let_def)
qed

lemma round64_exact:
  assumes q: "q = of_int m * 2 powi e" and m: "\<bar>m\<bar> < 2 ^ 53"
    and e: "- 1074 \<le> e" "e \<le> 971"
  shows "round64 q = Fin q"
proof (cases "m = 0")
  case True
  then show ?thesis by (simp add: q round64_def)
next
  case False
  define a where "a = \<bar>q\<bar>"
  define e' where "e' = lastplace a"
  have a: "a = of_int \<bar>m\<bar> * 2 powi e"
    by (simp add: a_def q abs_mult power_int_abs)
  have apos: "0 < a" using False by (simp add: a)
  have "of_int \<bar>m\<bar> < (2::rat) ^ 53"
    using m by (metis of_int_less_iff of_int_numeral of_int_power)
  then have "a < 2 powi 53 * 2 powi e"
    by (simp add: a)
  then have ub: "a < 2 powi (53 + e)"
    by (simp add: power_int_add)
  have "2 powi (ilog2 a) < (2::rat) powi (53 + e)"
    using ilog2_bounds(1) [OF apos] ub by (rule le_less_trans)
  then have k: "ilog2 a < 53 + e" by (simp add: powi2_less_iff)
  then have e': "e' \<le> e" using e by (simp add: e'_def lastplace_def)
  have "a / 2 powi e' = of_int \<bar>m\<bar> * 2 powi (e - e')"
    by (simp add: a power_int_diff)
  also have "\<dots> = of_int (\<bar>m\<bar> * 2 ^ nat (e - e'))"
    using e' by (simp add: power_int_nonneg_exp)
  finally have "of_int (round_half_even (a / 2 powi e')) * 2 powi e'
      = (of_int (\<bar>m\<bar> * 2 ^ nat (e - e')) :: rat) * 2 powi e'"
    by (simp only: round_half_even_of_int)
  also have "\<dots> = of_int \<bar>m\<bar> * (2 powi (e - e') * 2 powi e')"
    using e' by (simp add: power_int_nonneg_exp)
  also have "\<dots> = a"
    by (simp add: a power_int_add [symmetric])
  finally have r: "nearest a = a"
    by (simp only: nearest_def e'_def)
  have "ilog2 a < 1024" using k e by simp
  moreover have "q \<noteq> 0" using apos by (simp add: a_def)
  moreover have "(if 0 < q then a else - a) = q" by (simp add: a_def)
  ultimately show ?thesis
    unfolding round64_def a_def [symmetric] r
    by simp
qed

subsection \<open>Rounding is monotone\<close>

lemma ilog2_mono:
  assumes "0 < a" "a \<le> b"
  shows "ilog2 a \<le> ilog2 b"
proof -
  have b: "0 < b" using assms by simp
  have "2 powi (ilog2 a) \<le> a" by (rule ilog2_bounds(1) [OF assms(1)])
  also have "a \<le> b" by fact
  also have "b < 2 powi (ilog2 b + 1)" by (rule ilog2_bounds(2) [OF b])
  finally have "ilog2 a < ilog2 b + 1" by (simp add: powi2_less_iff)
  then show ?thesis by simp
qed

lemma round_half_even_upper: "round_half_even x \<le> \<lfloor>x\<rfloor> + 1"
  by (simp add: round_half_even_def Let_def)

lemma round_half_even_lower: "\<lfloor>x\<rfloor> \<le> round_half_even x"
  by (simp add: round_half_even_def Let_def)

lemma round_half_even_mono:
  assumes "x \<le> y"
  shows "round_half_even x \<le> round_half_even y"
proof (cases "\<lfloor>x\<rfloor> = \<lfloor>y\<rfloor>")
  case True
  have "x - of_int \<lfloor>x\<rfloor> \<le> y - of_int \<lfloor>y\<rfloor>" using assms True by simp
  then show ?thesis
    unfolding round_half_even_def Let_def True by auto
next
  case False
  have "\<lfloor>x\<rfloor> \<le> \<lfloor>y\<rfloor>" using assms by (rule floor_mono)
  with False have "\<lfloor>x\<rfloor> + 1 \<le> \<lfloor>y\<rfloor>" by simp
  then show ?thesis
    using round_half_even_upper [of x] round_half_even_lower [of y] by linarith
qed

lemma lastplace_mono: "0 < a \<Longrightarrow> a \<le> b \<Longrightarrow> lastplace a \<le> lastplace b"
  using ilog2_mono [of a b] by (simp add: lastplace_def)

lemma nearest_nonneg:
  assumes "0 \<le> a"
  shows "0 \<le> nearest a"
proof -
  from assms have "of_int 0 \<le> a / 2 powi lastplace a" by simp
  then have "0 \<le> round_half_even (a / 2 powi lastplace a)"
    by (rule round_half_even_ge)
  then show ?thesis by (simp add: nearest_def)
qed

text \<open>
  Two magnitudes with the same last place round in order because rounding to an
  integer is monotone; otherwise a power of two lies between them, and it is a
  bound for the rounded value of each.
\<close>

lemma nearest_mono:
  assumes a: "0 < a" and ab: "a \<le> b"
  shows "nearest a \<le> nearest b"
proof (cases "lastplace a = lastplace b")
  case True
  have "a / 2 powi lastplace b \<le> b / 2 powi lastplace b"
    using ab by (simp add: divide_right_mono)
  then have "round_half_even (a / 2 powi lastplace b) \<le> round_half_even (b / 2 powi lastplace b)"
    by (rule round_half_even_mono)
  then show ?thesis
    by (simp add: nearest_def True)
next
  case False
  have b: "0 < b" using a ab by simp
  have lt: "lastplace a < lastplace b"
    using lastplace_mono [OF a ab] False by simp
  define k where "k = ilog2 b"
  have lb: "lastplace b = k - 52"
    using lt by (simp add: lastplace_def k_def max_def split: if_splits)
  have ka: "ilog2 a < k"
    using lt lb by (simp add: lastplace_def k_def max_def split: if_splits)
  have "a < 2 powi (ilog2 a + 1)" by (rule ilog2_bounds(2) [OF a])
  also have "\<dots> \<le> 2 powi k" using ka by (simp add: powi2_le_iff)
  finally have aT: "a \<le> 2 powi k" by simp
  have ge: "0 \<le> k - lastplace a" using lt lb by simp
  have "a / 2 powi lastplace a \<le> 2 powi k / 2 powi lastplace a"
    using aT by (simp add: divide_right_mono)
  also have "\<dots> = 2 powi (k - lastplace a)"
    by (simp add: power_int_diff)
  also have "\<dots> = of_int (2 ^ nat (k - lastplace a))"
    using ge by (simp add: power_int_nonneg_exp)
  finally have "round_half_even (a / 2 powi lastplace a) \<le> 2 ^ nat (k - lastplace a)"
    by (rule round_half_even_le)
  then have "(of_int (round_half_even (a / 2 powi lastplace a)) :: rat)
      \<le> of_int (2 ^ nat (k - lastplace a))"
    by (simp only: of_int_le_iff)
  then have "nearest a \<le> of_int (2 ^ nat (k - lastplace a)) * 2 powi lastplace a"
    unfolding nearest_def by (rule mult_right_mono) simp
  also have "\<dots> = 2 powi (k - lastplace a) * 2 powi lastplace a"
    using ge by (simp add: power_int_nonneg_exp)
  also have "\<dots> = 2 powi k"
    by (simp add: power_int_add [symmetric])
  finally have 1: "nearest a \<le> 2 powi k" .
  have "(of_int (2 ^ 52) :: rat) = 2 powi k / 2 powi (k - 52)"
    by (simp add: power_int_diff)
  also have "\<dots> \<le> b / 2 powi (k - 52)"
    using ilog2_bounds(1) [OF b] by (simp add: k_def divide_right_mono)
  finally have "2 ^ 52 \<le> round_half_even (b / 2 powi (k - 52))"
    by (rule round_half_even_ge)
  then have "(of_int (2 ^ 52) :: rat) \<le> of_int (round_half_even (b / 2 powi (k - 52)))"
    by (simp only: of_int_le_iff)
  then have "of_int (2 ^ 52) * 2 powi (k - 52) \<le> nearest b"
    unfolding nearest_def lb by (rule mult_right_mono) simp
  moreover have "(of_int (2 ^ 52) :: rat) * 2 powi (k - 52) = 2 powi k"
    by (simp add: power_int_diff)
  ultimately have 2: "2 powi k \<le> nearest b" by simp
  from 1 2 show ?thesis by simp
qed

lemma ilog2_0: "ilog2 0 = - 2"
proof -
  have "bitlen 1 = 1" by (simp add: bitlen_alt_def)
  then show ?thesis by (simp add: ilog2_def)
qed

lemma overflow_mono:
  assumes "0 \<le> r" "r \<le> r'" "1024 \<le> ilog2 r"
  shows "1024 \<le> ilog2 r'"
proof (cases "r = 0")
  case True
  with assms(3) show ?thesis by (simp add: ilog2_0)
next
  case False
  with assms(1) have "0 < r" by simp
  from ilog2_mono [OF this assms(2)] assms(3) show ?thesis by simp
qed

lemma jle_simps [simp]:
  "jle (Fin a) (Fin b) = (a \<le> b)"
  "jle (Fin a) PosInf" "jle NegInf (Fin a)" "jle NegInf PosInf"
  "jle PosInf PosInf" "jle NegInf NegInf"
  "\<not> jle PosInf (Fin a)" "\<not> jle (Fin a) NegInf" "\<not> jle PosInf NegInf"
  "\<not> jle NaN x" "\<not> jle x NaN"
  by (auto simp: jle_def)

lemma round64_pos_mono:
  assumes "0 < q" "q \<le> q'"
  shows "jle (round64 q) (round64 q')"
proof -
  have q': "0 < q'" using assms by simp
  have n: "nearest q \<le> nearest q'" using assms by (rule nearest_mono)
  have "0 \<le> nearest q" using assms(1) by (intro nearest_nonneg) simp
  then have o: "1024 \<le> ilog2 (nearest q) \<Longrightarrow> 1024 \<le> ilog2 (nearest q')"
    using n by (rule overflow_mono)
  have "round64 q = (if 1024 \<le> ilog2 (nearest q) then PosInf else Fin (nearest q))"
    using assms(1) by (simp add: round64_def)
  moreover have "round64 q' = (if 1024 \<le> ilog2 (nearest q') then PosInf else Fin (nearest q'))"
    using q' by (simp add: round64_def)
  ultimately show ?thesis
    using n o by simp
qed

lemma round64_neg: "round64 (- q) = jneg (round64 q)"
  by (simp add: round64_def)

lemma jle_jneg: "jle a b \<Longrightarrow> jle (jneg b) (jneg a)"
  by (cases a; cases b) simp_all

lemma round64_nonneg: "0 \<le> q \<Longrightarrow> jle (Fin 0) (round64 q)"
  using nearest_nonneg [of q] by (simp add: round64_def)

lemma jle_trans: "jle a b \<Longrightarrow> jle b c \<Longrightarrow> jle a c"
  by (cases a; cases b; cases c) simp_all

lemma round64_mono:
  assumes "q \<le> q'"
  shows "jle (round64 q) (round64 q')"
proof -
  consider "0 < q" | "q \<le> 0" "0 \<le> q'" | "q' < 0" using assms by linarith
  then show ?thesis
  proof cases
    case 1
    then show ?thesis using assms by (rule round64_pos_mono)
  next
    case 2
    have "jle (Fin 0) (round64 (- q))"
      using 2(1) by (intro round64_nonneg) simp
    then have "jle (jneg (round64 (- q))) (jneg (Fin 0))"
      by (rule jle_jneg)
    then have "jle (round64 q) (Fin 0)"
      by (simp add: round64_neg) (cases "round64 q"; simp)
    then show ?thesis
      using round64_nonneg [OF 2(2)] by (rule jle_trans)
  next
    case 3
    have "jle (round64 (- q')) (round64 (- q))"
      using 3 assms by (intro round64_pos_mono) simp_all
    then have "jle (jneg (round64 (- q))) (jneg (round64 (- q')))"
      by (rule jle_jneg)
    then show ?thesis
      by (simp add: round64_neg) (cases "round64 q"; cases "round64 q'"; simp)
  qed
qed

text \<open>A value between two binary64 numbers rounds to a number between them.\<close>

lemma round64_between:
  assumes "round64 lo = Fin lo" "round64 hi = Fin hi" "lo \<le> q" "q \<le> hi"
  obtains d where "round64 q = Fin d" "lo \<le> d" "d \<le> hi"
proof -
  have 1: "jle (Fin lo) (round64 q)"
    using round64_mono [OF assms(3)] by (simp only: assms(1))
  have 2: "jle (round64 q) (Fin hi)"
    using round64_mono [OF assms(4)] by (simp only: assms(2))
  from 1 2 show ?thesis
    by (cases "round64 q") (auto intro: that)
qed

lemma round64_int: "\<bar>n\<bar> < 2 ^ 53 \<Longrightarrow> round64 (of_int n) = Fin (of_int n)"
  using round64_exact [of "of_int n" n 0] by simp

lemma round64_nat: "n < 2 ^ 53 \<Longrightarrow> round64 (of_nat n) = Fin (of_nat n)"
  using round64_exact [of "of_nat n" "int n" 0] by simp

lemma round64_not_NaN [simp]: "round64 q \<noteq> NaN"
  by (simp add: round64_def)


lemma orZero_Number: "orZero (Number v) = field_value v"
  by (simp add: orZero_def field_value_def)

subsection \<open>Evaluating a rounding\<close>

text \<open>
  A positive rational between two consecutive powers of two rounds to the nearest
  multiple of the unit in the last place at that exponent, ties to even.
\<close>

lemma ilog2_less: "0 < r \<Longrightarrow> r < 2 powi j \<Longrightarrow> ilog2 r < j"
  using ilog2_bounds(1) [of r] powi2_less_iff [of "ilog2 r" j] by simp

lemma round64_pos_eval:
  assumes k: "2 powi k \<le> q" "q < 2 powi (k + 1)" and r: "- 1022 \<le> k" "k \<le> 1022"
  shows "round64 q = Fin (of_int (round_half_even (q / 2 powi (k - 52))) * 2 powi (k - 52))"
proof -
  have q: "0 < q" using k(1) by (rule less_le_trans [rotated]) simp
  have i: "ilog2 q = k" using k by (rule ilog2_unique)
  have l: "lastplace q = k - 52" using r by (simp add: lastplace_def i)
  define m where "m = round_half_even (q / 2 powi (k - 52))"
  have n: "nearest q = of_int m * 2 powi (k - 52)"
    by (simp add: nearest_def l m_def)
  have "(of_int (2 ^ 52) :: rat) = 2 powi k / 2 powi (k - 52)"
    by (simp add: power_int_diff)
  also have "\<dots> \<le> q / 2 powi (k - 52)"
    using k(1) by (simp add: divide_right_mono)
  finally have "2 ^ 52 \<le> m" unfolding m_def by (rule round_half_even_ge)
  then have mpos: "0 < m" by simp
  have "q / 2 powi (k - 52) \<le> 2 powi (k + 1) / 2 powi (k - 52)"
    using k(2) by (simp add: divide_right_mono)
  also have "\<dots> = 2 powi 53"
    by (simp add: power_int_diff [symmetric])
  also have "\<dots> = of_int (2 ^ 53)"
    by simp
  finally have "m \<le> 2 ^ 53" unfolding m_def by (rule round_half_even_le)
  then have "(of_int m :: rat) \<le> of_int (2 ^ 53)" by (simp only: of_int_le_iff)
  then have "nearest q \<le> of_int (2 ^ 53) * 2 powi (k - 52)"
    unfolding n by (rule mult_right_mono) simp
  also have "\<dots> = 2 powi (k + 1)"
    using power_int_add [of "2::rat" 53 "k - 52"] by (simp add: add.commute)
  also have "\<dots> < 2 powi 1024"
    using r(2) by (simp only: powi2_less_iff)
  finally have "nearest q < 2 powi 1024" .
  moreover have "0 < nearest q" using mpos by (simp add: n)
  ultimately have "ilog2 (nearest q) < 1024" by (rule ilog2_less [rotated])
  then show ?thesis
    using q by (simp add: round64_def n m_def)
qed

lemma round_half_even_numeral:
  "round_half_even (numeral a / numeral b) =
     (let f = (numeral a div numeral b :: int); r = (numeral a mod numeral b :: int)
      in if 2 * r < numeral b then f
         else if numeral b < 2 * r then f + 1
         else if even f then f else f + 1)"
proof -
  define x :: int where "x = numeral a"
  define y :: int where "y = numeral b"
  have y: "0 < y" by (simp add: y_def)
  have f: "\<lfloor>of_int x / (of_int y :: rat)\<rfloor> = x div y"
    by (rule floor_divide_of_int_eq)
  have "(of_int x :: rat) = of_int (x div y * y + x mod y)" by simp
  also have "\<dots> = of_int (x div y) * of_int y + of_int (x mod y)"
    by (simp only: of_int_add of_int_mult)
  finally have d: "of_int x / (of_int y :: rat) - of_int (x div y) = of_int (x mod y) / of_int y"
    using y by (simp add: field_simps)
  have 1: "(of_int (x mod y) / (of_int y :: rat) < 1 / 2) = (2 * (x mod y) < y)"
    using y by (simp add: field_simps) (metis of_int_less_iff of_int_mult of_int_numeral mult.commute)
  have 2: "(1 / 2 < of_int (x mod y) / (of_int y :: rat)) = (y < 2 * (x mod y))"
    using y by (simp add: field_simps) (metis of_int_less_iff of_int_mult of_int_numeral mult.commute)
  have "round_half_even (of_int x / of_int y) =
     (let f = x div y; r = x mod y
      in if 2 * r < y then f else if y < 2 * r then f + 1 else if even f then f else f + 1)"
    unfolding round_half_even_def Let_def f d 1 2 ..
  then show ?thesis unfolding x_def y_def by (simp only: of_int_numeral)
qed

lemma round_half_even_numeral_int: "round_half_even (numeral a) = numeral a"
  using round_half_even_of_int [of "numeral a"] by simp

text \<open>The literals \<open>0.1\<close>, \<open>0.2\<close> and \<open>0.3\<close>.\<close>

lemma lit_0_1: "lit (1 / 10) = Fin (3602879701896397 / 36028797018963968)"
  by (simp add: lit_def round64_pos_eval [where k = "- 4"] round_half_even_numeral round_half_even_numeral_int Let_def)

lemma lit_0_2: "lit (1 / 5) = Fin (3602879701896397 / 18014398509481984)"
  by (simp add: lit_def round64_pos_eval [where k = "- 3"] round_half_even_numeral round_half_even_numeral_int Let_def)

lemma lit_0_3: "lit (3 / 10) = Fin (5404319552844595 / 18014398509481984)"
  by (simp add: lit_def round64_pos_eval [where k = "- 2"] round_half_even_numeral round_half_even_numeral_int Let_def)

section \<open>The totals\<close>

lemma calculateTotals_foldl:
  "foldl (\<lambda>acc item.
        \<lparr> totalInvoiceQty = jadd (totalInvoiceQty acc) (orZero (Number (invoiceQty item))),
          totalRcvdQty = jadd (totalRcvdQty acc) (orZero (Number (rcvdQty item))),
          totalValue = jadd (totalValue acc)
            (jmul (orZero (Number (invoiceQty item))) (orZero (Number (unitPrice item)))) \<rparr>)
     \<lparr> totalInvoiceQty = a, totalRcvdQty = b, totalValue = c \<rparr> items
   = \<lparr> totalInvoiceQty = foldl jadd a (map (\<lambda>i. field_value (invoiceQty i)) items),
       totalRcvdQty = foldl jadd b (map (\<lambda>i. field_value (rcvdQty i)) items),
       totalValue = foldl jadd c
         (map (\<lambda>i. jmul (field_value (invoiceQty i)) (field_value (unitPrice i))) items) \<rparr>"
  by (induction items arbitrary: a b c) (simp_all add: orZero_Number)

lemma calculateTotals_eq:
  "calculateTotals items =
     \<lparr> totalInvoiceQty = sum_js (map (\<lambda>i. field_value (invoiceQty i)) items),
       totalRcvdQty = sum_js (map (\<lambda>i. field_value (rcvdQty i)) items),
       totalValue = sum_js
         (map (\<lambda>i. jmul (field_value (invoiceQty i)) (field_value (unitPrice i))) items) \<rparr>"
  unfolding calculateTotals_def sum_js_def by (rule calculateTotals_foldl)

text \<open>
  C1. For every list of line items, \<open>calculateTotals\<close> returns the record whose
  \<open>totalValue\<close> is the sum over the items of invoice quantity times unit price, whose
  \<open>totalInvoiceQty\<close> is the sum of the invoice quantities and whose \<open>totalRcvdQty\<close>
  is the sum of the received quantities, a field that holds no number counting as
  zero. The sums are JavaScript sums, taken in the order of the list.
\<close>

theorem calculateTotals_sums:
  "totalValue (calculateTotals items) =
     sum_js (map (\<lambda>i. jmul (field_value (invoiceQty i)) (field_value (unitPrice i))) items)
   \<and> totalInvoiceQty (calculateTotals items) =
     sum_js (map (\<lambda>i. field_value (invoiceQty i)) items)
   \<and> totalRcvdQty (calculateTotals items) =
     sum_js (map (\<lambda>i. field_value (rcvdQty i)) items)"
  by (simp add: calculateTotals_eq)

section \<open>Coercion\<close>

lemma field_value_zeroed: "field_value (zeroed v) = field_value v"
  by (simp add: field_value_def zeroed_def)

lemma round64_0: "round64 0 = Fin 0"
  by (simp add: round64_def)

lemma StringToNumber_empty: "StringToNumber [] = Fin 0"
  by (simp add: StringToNumber_def trim_def)

text \<open>
  C6. Numeric coercion never fails: every function of the model returns a value on
  every input, as the source has no \<open>throw\<close> on these paths. A quantity or price
  that holds no number is treated as zero: replacing every such field by the number
  \<open>0\<close> changes neither the totals nor any row of the PDF table or of the spreadsheet.
  A missing field, \<open>NaN\<close> and the empty string all count as \<open>0\<close>; an item with
  \<open>invoiceQty ""\<close> and \<open>unitPrice 5\<close> has line total \<open>0\<close> and adds \<open>0\<close> to
  \<open>totalValue\<close>.
\<close>

theorem coercion_treats_as_zero:
  "calculateTotals (map zero_item items) = calculateTotals items
   \<and> map (pdfRow fmt) (map zero_item items) = map (pdfRow fmt) items
   \<and> map excelRow (map zero_item items) = map excelRow items
   \<and> field_value JUndefined = Fin 0
   \<and> field_value (JNumber NaN) = Fin 0
   \<and> field_value (JString []) = Fin 0
   \<and> totalRowVal (newRow u \<lparr> invoiceQty := JString [], unitPrice := JNumber (Fin 5) \<rparr>) = Fin 0
   \<and> totalValue (calculateTotals
        [newRow u \<lparr> invoiceQty := JString [], unitPrice := JNumber (Fin 5) \<rparr>]) = Fin 0"
  apply (intro conjI)
         apply (simp add: calculateTotals_eq zero_item_def field_value_zeroed o_def)
        apply (simp add: pdfRow_def zero_item_def field_value_zeroed o_def orZero_Number
                         Let_def describe_def)
       apply (simp add: excelRow_def zero_item_def field_value_zeroed o_def orZero_Number
                        Let_def describe_def)
      apply (simp add: field_value_def)
     apply (simp add: field_value_def)
    apply (simp add: field_value_def StringToNumber_empty)
   apply (simp add: totalRowVal_def orZero_def StringToNumber_empty newRow_def round64_0)
  apply (simp add: calculateTotals_eq sum_js_def field_value_def StringToNumber_empty
                   newRow_def round64_0)
  done

section \<open>Rows of the two renderers\<close>

lemma totalValue_snoc:
  "totalValue (calculateTotals (items @ [item])) =
     jadd (totalValue (calculateTotals items))
          (jmul (field_value (invoiceQty item)) (field_value (unitPrice item)))"
  by (simp add: calculateTotals_eq sum_js_def)

lemma mul_0_1_3:
  "jmul (Fin (3602879701896397 / 36028797018963968)) (Fin 3) = Fin (1351079888211149 / 4503599627370496)"
  by (simp add: round64_pos_eval [where k = "- 2"] round_half_even_numeral round_half_even_numeral_int Let_def)

lemma parse_0_30: "parse_decimal ''0.30'' = Some (3 / 10)"
  by (simp add: parse_decimal_def parse_digits_opt_def digit_of_def Let_def)

lemma Number_0_30: "Number (JString ''0.30'') = Fin (5404319552844595 / 18014398509481984)"
  by (simp add: StringToNumber_def trim_def is_ws_def Let_def parse_0_30 lit_0_3 [unfolded lit_def])

lemma toFixed2_0_30: "toFixed2 fmt (Fin (1351079888211149 / 4503599627370496)) = ''0.30''"
  by code_simp

lemma totalRowVal_0_1_3:
  "totalRowVal (newRow [] \<lparr> invoiceQty := JNumber (lit (1 / 10)), unitPrice := JNumber (Fin 3) \<rparr>)
     = Fin (1351079888211149 / 4503599627370496)"
  unfolding lit_0_1 by (simp add: totalRowVal_def orZero_def newRow_def mul_0_1_3 del: jmul.simps)

text \<open>
  C10, as the claim states it, fails: the two renderers do not write the same value.
  For an item with invoice quantity 0.1 and unit price 3 the line total is
  0.30000000000000004. The spreadsheet row holds that number; the PDF row holds the
  text \<open>0.30\<close>, which reads back as the number 0.3, another number.
\<close>

theorem line_total_counterexample:
  "pdfRow (\<lambda>q. []) (newRow [] \<lparr> invoiceQty := JNumber (lit (1 / 10)), unitPrice := JNumber (Fin 3) \<rparr>) ! 9
     = CStr ''0.30''
   \<and> excelRow (newRow [] \<lparr> invoiceQty := JNumber (lit (1 / 10)), unitPrice := JNumber (Fin 3) \<rparr>) ! 9
     = CNum (Fin (1351079888211149 / 4503599627370496))
   \<and> Number (JString ''0.30'') \<noteq> Fin (1351079888211149 / 4503599627370496)"
proof -
  let ?item = "newRow [] \<lparr> invoiceQty := JNumber (lit (1 / 10)), unitPrice := JNumber (Fin 3) \<rparr>"
  have p: "pdfRow (\<lambda>q. []) ?item ! 9 = CStr (toFixed2 (\<lambda>q. []) (totalRowVal ?item))"
    by (simp add: pdfRow_def Let_def totalRowVal_def)
  have e: "excelRow ?item ! 9 = CNum (totalRowVal ?item)"
    by (simp add: excelRow_def Let_def totalRowVal_def)
  show ?thesis
    unfolding p e totalRowVal_0_1_3 toFixed2_0_30 Number_0_30 by simp
qed

text \<open>
  C10, amended. For every line item, the value column of its PDF row is the
  two-decimal rendering (\<open>toFixed(2)\<close>) of the number \<open>totalRowVal\<close>, the value column
  of its spreadsheet row is that number itself, the number is the coerced invoice
  quantity times the coerced unit price, and it is what the item adds to \<open>totalValue\<close>
  in \<open>calculateTotals\<close>.
\<close>

theorem line_total_agrees:
  "pdfRow fmt item ! 9 = CStr (toFixed2 fmt (totalRowVal item))
   \<and> excelRow item ! 9 = CNum (totalRowVal item)
   \<and> totalRowVal item = jmul (field_value (invoiceQty item)) (field_value (unitPrice item))
   \<and> totalValue (calculateTotals (items @ [item])) =
       jadd (totalValue (calculateTotals items)) (totalRowVal item)"
  by (simp add: pdfRow_def excelRow_def Let_def totalRowVal_def orZero_Number totalValue_snoc)

text \<open>
  C9, as the claim states it, fails: the totals row is not blank outside the quantity
  and value columns. Its unit column holds the label \<open>TOTAL:\<close>.
\<close>

theorem footerRow_counterexample:
  "footerRow (\<lambda>q. []) (calculateTotals [newRow []]) ! 5 \<noteq> CStr []"
  by (simp add: footerRow_def)

text \<open>
  C9, amended. In the PDF table body the rows of the items are followed by one totals
  row. It holds the two-decimal renderings of the summed invoice quantity, the summed
  received quantity and the summed value in columns 6, 7 and 9, the label \<open>TOTAL:\<close>
  in column 5 (the unit column), and the empty string in the other seven columns.
\<close>

theorem footerRow_cells:
  "last (tableRows fmt items (calculateTotals items)) =
     [CStr [], CStr [], CStr [], CStr [], CStr [], CStr ''TOTAL:'',
      CStr (toFixed2 fmt (sum_js (map (\<lambda>i. field_value (invoiceQty i)) items))),
      CStr (toFixed2 fmt (sum_js (map (\<lambda>i. field_value (rcvdQty i)) items))),
      CStr [],
      CStr (toFixed2 fmt (sum_js
        (map (\<lambda>i. jmul (field_value (invoiceQty i)) (field_value (unitPrice i))) items))),
      CStr []]
   \<and> butlast (tableRows fmt items (calculateTotals items)) = map (pdfRow fmt) items"
  by (simp add: tableRows_def footerRow_def calculateTotals_eq)

section \<open>The grid of the spreadsheet\<close>

text \<open>
  C2. For every list of \<open>N\<close> items the table header is row 10 of the grid, the rows
  of the items follow from row 11 on, the totals row is row
  \<open>headerRowIndex + N + 1\<close>, which is the \<open>footerRowIndex\<close> that the styling code
  computes, and the signature row is the last row of the grid, at \<open>sigRowIndex\<close>.
\<close>

theorem wsData_row_indices:
  "headerRowIndex = 10
   \<and> wsData header items totals ! nat headerRowIndex = excelHeaderRow
   \<and> take (length items) (drop (nat startDataRow) (wsData header items totals))
       = map excelRow items
   \<and> footerRowIndex items = headerRowIndex + int (length items) + 1
   \<and> wsData header items totals ! nat (footerRowIndex items) = excelFooterRow totals
   \<and> sigRowIndex header items totals + 1 = length (wsData header items totals)
   \<and> wsData header items totals ! sigRowIndex header items totals = sigRow
   \<and> last (wsData header items totals) = sigRow"
  apply (intro conjI)
         apply (simp add: headerRowIndex_def)
        apply (simp add: headerRowIndex_def wsData_def wsData_body_def)
       apply (simp add: startDataRow_def wsData_def wsData_body_def)
      apply (simp add: footerRowIndex_def endDataRow_def startDataRow_def headerRowIndex_def)
     apply (simp add: footerRowIndex_def endDataRow_def startDataRow_def wsData_def
                      wsData_body_def nth_append nat_add_distrib)
    apply (simp add: sigRowIndex_def wsData_def)
   apply (simp add: sigRowIndex_def wsData_def)
  apply (simp add: wsData_def)
  done

text \<open>
  The saved sheet is the grid, except in the signature row: there the first cell is
  overwritten with \<open>Prepared By\<close> and the ninth with \<open>Store In-Charge\<close>. The totals
  row has all its cells, so styling it creates none.
\<close>

lemma wsData_footer:
  "wsData header items totals ! nat (footerRowIndex items) = excelFooterRow totals"
  by (simp add: footerRowIndex_def endDataRow_def startDataRow_def wsData_def
      wsData_body_def nth_append nat_add_distrib)

lemma wsData_length: "length (wsData header items totals) = length items + 17"
  by (simp add: wsData_def wsData_body_def)

lemma footer_nat: "nat (footerRowIndex items) = length items + 11"
  by (simp add: footerRowIndex_def endDataRow_def startDataRow_def)

lemma ensureCell_footer:
  "c < 11 \<Longrightarrow> ensureCell (nat (footerRowIndex items)) c (wsData header items totals)
     = wsData header items totals"
  unfolding ensureCell_def wsData_footer
  by (auto simp: footer_nat wsData_length excelFooterRow_def less_Suc_eq numeral_eq_Suc)

lemma fold_ensureCell_footer:
  "fold (ensureCell (nat (footerRowIndex items))) [0 ..< 11] (wsData header items totals)
     = wsData header items totals"
proof -
  have "set cs \<subseteq> {0 ..< 11} \<Longrightarrow>
      fold (ensureCell (nat (footerRowIndex items))) cs (wsData header items totals)
        = wsData header items totals" for cs
    by (induction cs) (simp_all add: ensureCell_footer)
  then show ?thesis by simp
qed

lemma generateExcel_sheet:
  "fst (generateExcel header items totals filename) =
     wsData_body header items totals
     @ [[CStr ''Prepared By'', CStr ''Prepared By'', CStr [], CStr [], CStr [], CStr [],
         CStr [], CStr [], CStr ''Store In-Charge'', CStr ''Store In-Charge'', CStr []]]"
  unfolding generateExcel_def Let_def fold_ensureCell_footer
  by (simp add: wsData_def sigRowIndex_def ensureCell_def setCell_def pad_def sigRow_def
      numeral_eq_Suc nth_append)

section \<open>The row count of the PDF layout\<close>

text \<open>
  C4, as the claim states it, fails in \<open>reportService.ts\<close>: for one item the row
  count is 3, not 2.
\<close>

theorem rowCount_counterexample:
  "rowCount [newRow []] \<noteq> length [newRow []] + 1"
  by (simp add: rowCount_def)

text \<open>
  C4, amended. The PDF renderer of \<open>reportService.ts\<close> lays the table out for
  \<open>items.length + 2\<close> rows (the header row, the data rows and the totals row); the
  renderer of \<open>unnamed/part_001\<close> lays it out for \<open>items.length + 1\<close> rows (the data
  rows and the totals row).
\<close>

theorem rowCount_both:
  "rowCount items = length items + 2
   \<and> hd (drawn (fst (generatePDF fmt pageWidth pageHeight tbl header items totals filename)))
       = (1, Table tableColumn (tableRows fmt items totals)
               (layout (maxTableHeight pageHeight) (length items + 2)) tableStartY)
   \<and> rowCount_alt items = length items + 1
   \<and> hd (drawn (fst (generatePDF_alt pageWidth pageHeight tbl head body items filename)))
       = (1, Table head body
               (layout_alt (availableTableHeight_alt pageHeight) (length items + 1))
               tableStartY_alt)"
  apply (intro conjI)
     apply (simp add: rowCount_def)
    apply (simp add: generatePDF_def Let_def autoTable_def draw_def newDoc_def
                     signaturePage_def addPage_def rowCount_def signatureBlock_def)
   apply (simp add: rowCount_alt_def)
  apply (simp add: generatePDF_alt_def Let_def autoTable_def draw_def newDoc_def
                   rowCount_alt_def signatureBlock_alt_def)
  done

section \<open>File names\<close>

lemma Math_round_near: "\<bar>of_int \<lfloor>q + 1 / 2\<rfloor> - q\<bar> \<le> (1 / 2 :: rat)"
  by linarith

lemma example_total:
  "totalValue (calculateTotals
     [newRow u \<lparr> invoiceQty := JNumber (Fin 1), unitPrice := JNumber (Fin (12345 / 10)) \<rparr>])
   = Fin (12345 / 10)"
proof -
  have "round64 (12345 / 10) = Fin (12345 / 10)"
    by (rule round64_exact [where m = 2469 and e = "- 1"]) simp_all
  then show ?thesis
    by (simp add: calculateTotals_eq sum_js_def field_value_def newRow_def)
qed

lemma example_rounded: "numToString fmt (Math_round (Fin (12345 / 10))) = ''1235''"
  by code_simp

text \<open>
  C8. For every header and item list the base file name is
  \<open>Bill of Buyer <buyerName> $<rounded> DATE-<filenameDate>\<close>, where \<open>rounded\<close> is
  \<open>Math.round\<close> of the computed \<open>totalValue\<close>, an integer at most one half away from
  it, and \<open>filenameDate\<close> is \<open>getFilenameDate\<close> of the billing date. The integer is
  printed as JavaScript prints a number: with its decimal digits, after a minus sign
  when it is negative, when its magnitude is below \<open>2^53\<close>, and in the language's
  shortest-digits rendering \<open>fmt\<close> from there on. The PDF is saved under that name
  with \<open>.pdf\<close> and the workbook under the same name with \<open>.xlsx\<close>. For buyer
  \<open>Acme\<close>, billing date \<open>2024-03-15\<close> and a total value of 1234.5 the name is
  \<open>Bill of Buyer Acme $1235 DATE-\<close> followed by the date token.
\<close>

theorem baseFilename_shape:
  "baseFilename g fmt header items =
     ''Bill of Buyer '' @ buyerName header @ '' $''
       @ numToString fmt (Math_round (totalValue (calculateTotals items)))
       @ '' DATE-'' @ g (billingDate header)
   \<and> snd (fst (generateReports g fmt pageWidth pageHeight tbl header items)) =
       baseFilename g fmt header items @ ''.pdf''
   \<and> snd (snd (generateReports g fmt pageWidth pageHeight tbl header items)) =
       baseFilename g fmt header items @ ''.xlsx''
   \<and> Math_round (Fin q) = Fin (of_int \<lfloor>q + 1 / 2\<rfloor>)
   \<and> \<bar>of_int \<lfloor>q + 1 / 2\<rfloor> - q\<bar> \<le> 1 / 2
   \<and> numToString fmt (Fin (of_int n)) =
       (if \<bar>n\<bar> < 2 ^ 53 then (if n < 0 then ''-'' else []) @ showInt \<bar>n\<bar>
        else fmt (of_int n))
   \<and> baseFilename g fmt
        \<lparr> buyerName = ''Acme'', supplierName = [], fileNo = [], invoiceNo = [], lcNumber = [],
          invoiceDate = [], billingDate = ''2024-03-15'' \<rparr>
        [newRow u \<lparr> invoiceQty := JNumber (Fin 1), unitPrice := JNumber (Fin (12345 / 10)) \<rparr>]
       = ''Bill of Buyer Acme $1235 DATE-'' @ g ''2024-03-15''"
  apply (intro conjI)
        apply (simp add: baseFilename_def Let_def)
       apply (simp add: generateReports_def generatePDF_def Let_def pdfSaveName_def)
      apply (simp add: generateReports_def generateExcel_def Let_def xlsxSaveName_def)
     apply simp
    apply (rule Math_round_near)
   apply (simp add: numToString_def is_integer_def)
  apply (simp only: baseFilename_def Let_def example_total example_rounded)
  apply simp
  done

section \<open>Reordering the items\<close>

lemma field_value_lit [simp]: "field_value (JNumber (lit q)) = lit q"
  by (simp add: field_value_def lit_def)

lemma sum_a: "jadd (Fin (0)) (Fin (3602879701896397 / 36028797018963968)) = Fin (3602879701896397 / 36028797018963968)"
  by (simp add: round64_pos_eval [where k = "- 4"] round_half_even_numeral round_half_even_numeral_int Let_def)

lemma sum_ab: "jadd (Fin (3602879701896397 / 36028797018963968)) (Fin (3602879701896397 / 18014398509481984)) = Fin (1351079888211149 / 4503599627370496)"
  by (simp add: round64_pos_eval [where k = "- 2"] round_half_even_numeral round_half_even_numeral_int Let_def)

lemma sum_abc: "jadd (Fin (1351079888211149 / 4503599627370496)) (Fin (5404319552844595 / 18014398509481984)) = Fin (1351079888211149 / 2251799813685248)"
  by (simp add: round64_pos_eval [where k = "- 1"] round_half_even_numeral round_half_even_numeral_int Let_def)

lemma sum_c: "jadd (Fin (0)) (Fin (5404319552844595 / 18014398509481984)) = Fin (5404319552844595 / 18014398509481984)"
  by (simp add: round64_pos_eval [where k = "- 2"] round_half_even_numeral round_half_even_numeral_int Let_def)

lemma sum_cb: "jadd (Fin (5404319552844595 / 18014398509481984)) (Fin (3602879701896397 / 18014398509481984)) = Fin (1 / 2)"
  by (simp add: round64_pos_eval [where k = "- 1"] round_half_even_numeral round_half_even_numeral_int Let_def)

lemma sum_cba: "jadd (Fin (1 / 2)) (Fin (3602879701896397 / 36028797018963968)) = Fin (5404319552844595 / 9007199254740992)"
  by (simp add: round64_pos_eval [where k = "- 1"] round_half_even_numeral round_half_even_numeral_int Let_def)

lemma sum3_differs:
  "sum_js [lit (3 / 10), lit (1 / 5), lit (1 / 10)] \<noteq> sum_js [lit (1 / 10), lit (1 / 5), lit (3 / 10)]"
  unfolding sum_js_def foldl.simps lit_0_1 lit_0_2 lit_0_3 sum_a sum_ab sum_abc sum_c sum_cb sum_cba
  by simp

text \<open>
  C7, as the claim states it, fails: binary64 addition is not associative. The
  invoice quantities 0.1, 0.2 and 0.3 add up to 0.6000000000000001 in this order and
  to 0.6 in the reverse order.
\<close>

theorem reorder_counterexample:
  "mset [newRow [] \<lparr> invoiceQty := JNumber (lit (3 / 10)) \<rparr>,
         newRow [] \<lparr> invoiceQty := JNumber (lit (1 / 5)) \<rparr>,
         newRow [] \<lparr> invoiceQty := JNumber (lit (1 / 10)) \<rparr>]
   = mset [newRow [] \<lparr> invoiceQty := JNumber (lit (1 / 10)) \<rparr>,
           newRow [] \<lparr> invoiceQty := JNumber (lit (1 / 5)) \<rparr>,
           newRow [] \<lparr> invoiceQty := JNumber (lit (3 / 10)) \<rparr>]
   \<and> calculateTotals
        [newRow [] \<lparr> invoiceQty := JNumber (lit (3 / 10)) \<rparr>,
         newRow [] \<lparr> invoiceQty := JNumber (lit (1 / 5)) \<rparr>,
         newRow [] \<lparr> invoiceQty := JNumber (lit (1 / 10)) \<rparr>]
     \<noteq> calculateTotals
        [newRow [] \<lparr> invoiceQty := JNumber (lit (1 / 10)) \<rparr>,
         newRow [] \<lparr> invoiceQty := JNumber (lit (1 / 5)) \<rparr>,
         newRow [] \<lparr> invoiceQty := JNumber (lit (3 / 10)) \<rparr>]"
proof -
  let ?a = "newRow [] \<lparr> invoiceQty := JNumber (lit (1 / 10)) \<rparr>"
  let ?b = "newRow [] \<lparr> invoiceQty := JNumber (lit (1 / 5)) \<rparr>"
  let ?c = "newRow [] \<lparr> invoiceQty := JNumber (lit (3 / 10)) \<rparr>"
  have "totalInvoiceQty (calculateTotals [?c, ?b, ?a]) = sum_js [lit (3 / 10), lit (1 / 5), lit (1 / 10)]"
    by (simp add: calculateTotals_eq)
  moreover have "totalInvoiceQty (calculateTotals [?a, ?b, ?c]) = sum_js [lit (1 / 10), lit (1 / 5), lit (3 / 10)]"
    by (simp add: calculateTotals_eq)
  ultimately have "calculateTotals [?c, ?b, ?a] \<noteq> calculateTotals [?a, ?b, ?c]"
    using sum3_differs by metis
  moreover have "mset [?c, ?b, ?a] = mset [?a, ?b, ?c]"
    by (simp add: add.commute)
  ultimately show ?thesis by (rule conjI [rotated])
qed

lemma jadd_nat:
  "a + b < 2 ^ 53 \<Longrightarrow> jadd (Fin (of_nat a)) (Fin (of_nat b)) = Fin (of_nat (a + b))"
  using round64_nat [of "a + b"] by simp

lemma jmul_nat:
  "a * b < 2 ^ 53 \<Longrightarrow> jmul (Fin (of_nat a)) (Fin (of_nat b)) = Fin (of_nat (a * b))"
  using round64_nat [of "a * b"] by simp

lemma foldl_jadd_nat:
  "a + sum_list ns < 2 ^ 53 \<Longrightarrow>
   foldl jadd (Fin (of_nat a)) (map (\<lambda>n. Fin (of_nat n)) ns) = Fin (of_nat (a + sum_list ns))"
proof (induction ns arbitrary: a)
  case Nil
  then show ?case by simp
next
  case (Cons n ns)
  from Cons.prems have 1: "a + n < 2 ^ 53" and 2: "(a + n) + sum_list ns < 2 ^ 53"
    by simp_all
  have "foldl jadd (Fin (of_nat a)) (map (\<lambda>n. Fin (of_nat n)) (n # ns))
      = foldl jadd (jadd (Fin (of_nat a)) (Fin (of_nat n))) (map (\<lambda>n. Fin (of_nat n)) ns)"
    by (simp only: list.map foldl.simps)
  also have "\<dots> = Fin (of_nat ((a + n) + sum_list ns))"
    by (simp only: jadd_nat [OF 1] Cons.IH [OF 2])
  finally show ?case by (simp add: add.assoc)
qed

lemma foldl_jadd_jmul_nat:
  "a + (\<Sum>p\<leftarrow>ps. fst p * snd p) < 2 ^ 53 \<Longrightarrow>
   foldl jadd (Fin (of_nat a)) (map (\<lambda>p. jmul (Fin (of_nat (fst p))) (Fin (of_nat (snd p)))) ps)
     = Fin (of_nat (a + (\<Sum>p\<leftarrow>ps. fst p * snd p)))"
proof (induction ps arbitrary: a)
  case Nil
  then show ?case by simp
next
  case (Cons p ps)
  from Cons.prems have 0: "fst p * snd p < 2 ^ 53"
    and 1: "a + fst p * snd p < 2 ^ 53"
    and 2: "(a + fst p * snd p) + (\<Sum>p\<leftarrow>ps. fst p * snd p) < 2 ^ 53"
    by simp_all
  let ?f = "\<lambda>p. jmul (Fin (of_nat (fst p))) (Fin (of_nat (snd p)))"
  have "foldl jadd (Fin (of_nat a)) (map ?f (p # ps))
      = foldl jadd (jadd (Fin (of_nat a)) (jmul (Fin (of_nat (fst p))) (Fin (of_nat (snd p)))))
          (map ?f ps)"
    by (simp only: list.map foldl.simps)
  also have "\<dots> = Fin (of_nat ((a + fst p * snd p) + (\<Sum>p\<leftarrow>ps. fst p * snd p)))"
    by (simp only: jmul_nat [OF 0] jadd_nat [OF 1] Cons.IH [OF 2])
  finally show ?case by (simp add: add.assoc)
qed

text \<open>The natural number that a whole field holds.\<close>

lemma whole_field_value:
  assumes "whole v"
  shows "field_value v = Fin (of_nat (nat \<lfloor>exact (field_value v)\<rfloor>))"
proof -
  from assms obtain q where q: "field_value v = Fin q" "is_integer q" "0 \<le> q"
    by (auto simp: whole_def split: jsnum.splits)
  from q(2) have "q = of_int \<lfloor>q\<rfloor>" by (simp add: is_integer_def)
  moreover from q(3) have "0 \<le> \<lfloor>q\<rfloor>" by simp
  ultimately have "q = of_nat (nat \<lfloor>q\<rfloor>)"
    by (metis of_nat_nat)
  then show ?thesis by (simp add: q(1))
qed

lemma whole_item_fields:
  assumes "whole_item i"
  shows "field_value (invoiceQty i) = Fin (of_nat (nat \<lfloor>exact (field_value (invoiceQty i))\<rfloor>))"
    and "field_value (rcvdQty i) = Fin (of_nat (nat \<lfloor>exact (field_value (rcvdQty i))\<rfloor>))"
    and "field_value (unitPrice i) = Fin (of_nat (nat \<lfloor>exact (field_value (unitPrice i))\<rfloor>))"
  using assms by (simp_all add: whole_item_def whole_field_value [symmetric])

lemma exact_totals:
  assumes w: "\<forall>i\<in>set items. whole_item i"
    and b: "exactInvoiceQty items < 2 ^ 53" "exactRcvdQty items < 2 ^ 53"
      "exactValue items < 2 ^ 53"
  shows "calculateTotals items =
     \<lparr> totalInvoiceQty = Fin (exactInvoiceQty items),
       totalRcvdQty = Fin (exactRcvdQty items),
       totalValue = Fin (exactValue items) \<rparr>"
proof -
  define nq where "nq = (\<lambda>i::LineItem. nat \<lfloor>exact (field_value (invoiceQty i))\<rfloor>)"
  define nr where "nr = (\<lambda>i::LineItem. nat \<lfloor>exact (field_value (rcvdQty i))\<rfloor>)"
  define np where "np = (\<lambda>i::LineItem. nat \<lfloor>exact (field_value (unitPrice i))\<rfloor>)"
  have fq: "field_value (invoiceQty i) = Fin (of_nat (nq i))"
    and fr: "field_value (rcvdQty i) = Fin (of_nat (nr i))"
    and fp: "field_value (unitPrice i) = Fin (of_nat (np i))" if "i \<in> set items" for i
    using whole_item_fields [of i] w that by (simp_all add: nq_def nr_def np_def)
  have eq: "exactInvoiceQty items = of_nat (sum_list (map nq items))"
    unfolding exactInvoiceQty_def using fq
    by (induction items) simp_all
  have er: "exactRcvdQty items = of_nat (sum_list (map nr items))"
    unfolding exactRcvdQty_def using fr
    by (induction items) simp_all
  have ev: "exactValue items = of_nat (\<Sum>p\<leftarrow>map (\<lambda>i. (nq i, np i)) items. fst p * snd p)"
    unfolding exactValue_def using fq fp
    by (induction items) simp_all
  have bq: "0 + sum_list (map nq items) < 2 ^ 53"
    using b(1) unfolding eq by (metis add_0 of_nat_less_iff of_nat_numeral of_nat_power)
  have br: "0 + sum_list (map nr items) < 2 ^ 53"
    using b(2) unfolding er by (metis add_0 of_nat_less_iff of_nat_numeral of_nat_power)
  have bv: "0 + (\<Sum>p\<leftarrow>map (\<lambda>i. (nq i, np i)) items. fst p * snd p) < 2 ^ 53"
    using b(3) unfolding ev by (metis add_0 of_nat_less_iff of_nat_numeral of_nat_power)
  have mq: "map (\<lambda>i. field_value (invoiceQty i)) items = map (\<lambda>n. Fin (of_nat n)) (map nq items)"
    using fq by simp
  have mr: "map (\<lambda>i. field_value (rcvdQty i)) items = map (\<lambda>n. Fin (of_nat n)) (map nr items)"
    using fr by simp
  have mv: "map (\<lambda>i. jmul (field_value (invoiceQty i)) (field_value (unitPrice i))) items
      = map (\<lambda>p. jmul (Fin (of_nat (fst p))) (Fin (of_nat (snd p)))) (map (\<lambda>i. (nq i, np i)) items)"
    using fq fp by simp
  have "sum_js (map (\<lambda>i. field_value (invoiceQty i)) items) = Fin (exactInvoiceQty items)"
    unfolding sum_js_def mq eq using foldl_jadd_nat [OF bq] by simp
  moreover have "sum_js (map (\<lambda>i. field_value (rcvdQty i)) items) = Fin (exactRcvdQty items)"
    unfolding sum_js_def mr er using foldl_jadd_nat [OF br] by simp
  moreover have "sum_js (map (\<lambda>i. jmul (field_value (invoiceQty i)) (field_value (unitPrice i))) items)
      = Fin (exactValue items)"
    unfolding sum_js_def mv ev using foldl_jadd_jmul_nat [OF bv] by simp
  ultimately show ?thesis by (simp only: calculateTotals_eq)
qed

lemma exact_sums_mset:
  assumes "mset items' = mset items"
  shows "exactInvoiceQty items' = exactInvoiceQty items"
    and "exactRcvdQty items' = exactRcvdQty items"
    and "exactValue items' = exactValue items"
proof -
  have *: "sum_list (map f items') = sum_list (map f items)" for f :: "LineItem \<Rightarrow> rat"
    using assms by (metis mset_map sum_mset_sum_list)
  show "exactInvoiceQty items' = exactInvoiceQty items"
    and "exactRcvdQty items' = exactRcvdQty items"
    and "exactValue items' = exactValue items"
    by (simp_all only: exactInvoiceQty_def exactRcvdQty_def exactValue_def *)
qed

text \<open>
  C7, amended. For every list of line items whose quantities and prices are whole
  numbers, zero or more, and whose three exact totals are below \<open>2^53\<close>,
  \<open>calculateTotals\<close> returns the same totals for every permutation of the list.
\<close>

theorem reorder_whole:
  assumes "mset items' = mset items"
    and "\<forall>i\<in>set items. whole_item i"
    and "exactInvoiceQty items < 2 ^ 53" and "exactRcvdQty items < 2 ^ 53"
    and "exactValue items < 2 ^ 53"
  shows "calculateTotals items' = calculateTotals items"
proof -
  have s: "set items' = set items" using assms(1) by (rule mset_eq_setD)
  note e = exact_sums_mset [OF assms(1)]
  have "calculateTotals items' =
     \<lparr> totalInvoiceQty = Fin (exactInvoiceQty items'),
       totalRcvdQty = Fin (exactRcvdQty items'),
       totalValue = Fin (exactValue items') \<rparr>"
    using assms(2-) by (intro exact_totals) (simp_all only: s e)
  also have "\<dots> = calculateTotals items"
    unfolding e using assms(2-) by (intro exact_totals [symmetric])
  finally show ?thesis .
qed

theorem reorder_whole_witness:
  "calculateTotals
     [newRow [] \<lparr> invoiceQty := JNumber (Fin 5), rcvdQty := JNumber (Fin 4), unitPrice := JNumber (Fin 7) \<rparr>,
      newRow [] \<lparr> invoiceQty := JNumber (Fin 3), rcvdQty := JNumber (Fin 3), unitPrice := JNumber (Fin 2) \<rparr>]
   = calculateTotals
     [newRow [] \<lparr> invoiceQty := JNumber (Fin 3), rcvdQty := JNumber (Fin 3), unitPrice := JNumber (Fin 2) \<rparr>,
      newRow [] \<lparr> invoiceQty := JNumber (Fin 5), rcvdQty := JNumber (Fin 4), unitPrice := JNumber (Fin 7) \<rparr>]"
  by (rule reorder_whole)
     (simp_all add: add.commute whole_item_def whole_def field_value_def is_integer_def newRow_def
        exactInvoiceQty_def exactRcvdQty_def exactValue_def)

section \<open>The page of A4\<close>

text \<open>
  The heights that the two renderers compute on an A4 landscape page, each operation
  rounded as JavaScript rounds it.
\<close>

lemma lit_595_28: "lit (59528 / 100) = Fin (2618069127129989 / 4398046511104)"
  by (simp add: lit_def round64_pos_eval [where k = "9"] round_half_even_numeral round_half_even_numeral_int Let_def)

lemma lit_25_4: "lit (254 / 10) = Fin (3574732204225331 / 140737488355328)"
  by (simp add: lit_def round64_pos_eval [where k = "4"] round_half_even_numeral round_half_even_numeral_int Let_def)

lemma scale_mm: "jdiv (Fin (72)) (Fin (3574732204225331 / 140737488355328)) = Fin (1595763647493483 / 562949953421312)"
  by (simp add: round64_pos_eval [where k = "1"] round_half_even_numeral round_half_even_numeral_int Let_def)

lemma height_mm: "jdiv (Fin (2618069127129989 / 4398046511104)) (Fin (1595763647493483 / 562949953421312)) = Fin (3694386434950095 / 17592186044416)"
  by (simp add: round64_pos_eval [where k = "7"] round_half_even_numeral round_half_even_numeral_int Let_def)

lemma v1_sub_a: "jsub (Fin (3694386434950095 / 17592186044416)) (Fin (20)) = Fin (3342542714061775 / 17592186044416)"
  by (simp add: jsub_def round64_pos_eval [where k = "7"] round_half_even_numeral round_half_even_numeral_int Let_def)

lemma v1_sub_b: "jsub (Fin (3342542714061775 / 17592186044416)) (Fin (8)) = Fin (3201805225706447 / 17592186044416)"
  by (simp add: jsub_def round64_pos_eval [where k = "7"] round_half_even_numeral round_half_even_numeral_int Let_def)

lemma v1_mul: "jmul (Fin (5)) (Fin (4)) = Fin (20)"
  by (simp add: round64_pos_eval [where k = "4"] round_half_even_numeral round_half_even_numeral_int Let_def)

lemma v1_add_a: "jadd (Fin (32)) (Fin (20)) = Fin (52)"
  by (simp add: round64_pos_eval [where k = "5"] round_half_even_numeral round_half_even_numeral_int Let_def)

lemma v1_add_b: "jadd (Fin (52)) (Fin (4)) = Fin (56)"
  by (simp add: round64_pos_eval [where k = "5"] round_half_even_numeral round_half_even_numeral_int Let_def)

lemma v1_sub_c: "jsub (Fin (3201805225706447 / 17592186044416)) (Fin (56)) = Fin (2216642807219151 / 17592186044416)"
  by (simp add: jsub_def round64_pos_eval [where k = "6"] round_half_even_numeral round_half_even_numeral_int Let_def)

lemma v1_sub_d: "jsub (Fin (2216642807219151 / 17592186044416)) (Fin (35)) = Fin (1600916295664591 / 17592186044416)"
  by (simp add: jsub_def round64_pos_eval [where k = "6"] round_half_even_numeral round_half_even_numeral_int Let_def)

lemma v1_sub_e: "jsub (Fin (3201805225706447 / 17592186044416)) (Fin (10)) = Fin (3025883365262287 / 17592186044416)"
  by (simp add: jsub_def round64_pos_eval [where k = "7"] round_half_even_numeral round_half_even_numeral_int Let_def)

lemma v1_add_c: "jadd (Fin (3201805225706447 / 17592186044416)) (Fin (4)) = Fin (3272173969884111 / 17592186044416)"
  by (simp add: round64_pos_eval [where k = "7"] round_half_even_numeral round_half_even_numeral_int Let_def)

lemma alt_sub_a: "jsub (Fin (3694386434950095 / 17592186044416)) (Fin (10)) = Fin (3518464574505935 / 17592186044416)"
  by (simp add: jsub_def round64_pos_eval [where k = "7"] round_half_even_numeral round_half_even_numeral_int Let_def)

lemma alt_sub_b: "jsub (Fin (3518464574505935 / 17592186044416)) (Fin (7)) = Fin (3395319272195023 / 17592186044416)"
  by (simp add: jsub_def round64_pos_eval [where k = "7"] round_half_even_numeral round_half_even_numeral_int Let_def)

lemma alt_mul: "jmul (Fin (6)) (Fin (5)) = Fin (30)"
  by (simp add: round64_pos_eval [where k = "4"] round_half_even_numeral round_half_even_numeral_int Let_def)

lemma alt_add_a: "jadd (Fin (26)) (Fin (30)) = Fin (56)"
  by (simp add: round64_pos_eval [where k = "5"] round_half_even_numeral round_half_even_numeral_int Let_def)

lemma alt_add_b: "jadd (Fin (56)) (Fin (4)) = Fin (60)"
  by (simp add: round64_pos_eval [where k = "5"] round_half_even_numeral round_half_even_numeral_int Let_def)

lemma alt_sub_c: "jsub (Fin (3395319272195023 / 17592186044416)) (Fin (60)) = Fin (2339788109530063 / 17592186044416)"
  by (simp add: jsub_def round64_pos_eval [where k = "7"] round_half_even_numeral round_half_even_numeral_int Let_def)

lemma alt_sub_d: "jsub (Fin (2339788109530063 / 17592186044416)) (Fin (20)) = Fin (1987944388641743 / 17592186044416)"
  by (simp add: jsub_def round64_pos_eval [where k = "6"] round_half_even_numeral round_half_even_numeral_int Let_def)

lemma alt_sub_e: "jsub (Fin (3395319272195023 / 17592186044416)) (Fin (20)) = Fin (3043475551306703 / 17592186044416)"
  by (simp add: jsub_def round64_pos_eval [where k = "7"] round_half_even_numeral round_half_even_numeral_int Let_def)

lemma alt_add_c: "jadd (Fin (3395319272195023 / 17592186044416)) (Fin (5)) = Fin (3483280202417103 / 17592186044416)"
  by (simp add: round64_pos_eval [where k = "7"] round_half_even_numeral round_half_even_numeral_int Let_def)

lemma a4_height: "a4LandscapeHeight = Fin (3694386434950095 / 17592186044416)"
  unfolding a4LandscapeHeight_def lit_595_28 lit_25_4 scale_mm height_mm ..

lemma a4_signatureBlockY:
  "signatureBlockY a4LandscapeHeight = Fin (3201805225706447 / 17592186044416)"
  unfolding signatureBlockY_def a4_height signatureHeight_def bottomMargin_def
    v1_sub_a v1_sub_b ..

lemma tableStartY_value: "tableStartY = Fin 56"
  unfolding tableStartY_def infoBlockY_def infoBlockHeight_def lineHeight_def
    v1_mul v1_add_a v1_add_b ..

lemma a4_maxTableHeight:
  "maxTableHeight a4LandscapeHeight = Fin (1600916295664591 / 17592186044416)"
  unfolding maxTableHeight_def a4_signatureBlockY tableStartY_value signatureGapSize_def
    v1_sub_c v1_sub_d ..

lemma a4_signatureBlockY_alt:
  "signatureBlockY_alt a4LandscapeHeight = Fin (3395319272195023 / 17592186044416)"
  unfolding signatureBlockY_alt_def a4_height signatureHeight_alt_def bottomMargin_alt_def
    alt_sub_a alt_sub_b ..

lemma tableStartY_alt_value: "tableStartY_alt = Fin 60"
  unfolding tableStartY_alt_def infoBlockY_alt_def lineHeight_alt_def
    alt_mul alt_add_a alt_add_b ..

lemma a4_availableTableHeight_alt:
  "availableTableHeight_alt a4LandscapeHeight = Fin (1987944388641743 / 17592186044416)"
  unfolding availableTableHeight_alt_def a4_signatureBlockY_alt tableStartY_alt_value
    signatureGap_alt_def alt_sub_c alt_sub_d ..

section \<open>The layout of the table\<close>

lemma Math_max_Fin [simp]: "Math_max (Fin a) (Fin b) = Fin (max a b)"
  by (simp add: Math_max_def max_def)

lemma Math_min_Fin [simp]: "Math_min (Fin a) (Fin b) = Fin (min a b)"
  by (simp add: Math_min_def min_def)

lemma jless_Fin_iff: "jless (Fin a) (Fin b) = (a < b)"
  by simp

text \<open>
  A quotient of a height by a row count, when it lies between two integers, is a
  finite number between them.
\<close>

lemma quot_between:
  assumes rc: "1 \<le> rc"
    and lo: "of_int lo \<le> M / of_nat rc" and hi: "M / of_nat rc \<le> of_int hi"
    and small: "\<bar>lo\<bar> < 2 ^ 53" "\<bar>hi\<bar> < 2 ^ 53"
  shows "jdiv (Fin M) (Fin (of_nat rc)) = Fin (quot M rc)"
    and "of_int lo \<le> quot M rc" and "quot M rc \<le> of_int hi"
proof -
  have d: "jdiv (Fin M) (Fin (of_nat rc)) = round64 (M / of_nat rc)"
    using rc by simp
  obtain x where x: "round64 (M / of_nat rc) = Fin x" "of_int lo \<le> x" "x \<le> of_int hi"
    using round64_between [OF round64_int [OF small(1)] round64_int [OF small(2)] lo hi]
    by blast
  have q: "quot M rc = x"
    unfolding quot_def d x(1) by simp
  show "jdiv (Fin M) (Fin (of_nat rc)) = Fin (quot M rc)"
    and "of_int lo \<le> quot M rc" and "quot M rc \<le> of_int hi"
    unfolding q using x d by simp_all
qed

lemma quot_antitone:
  assumes "0 \<le> M" "M \<le> 128" "1 \<le> rc1" "rc1 \<le> rc2"
  shows "quot M rc2 \<le> quot M rc1"
proof -
  have rc2: "1 \<le> rc2" using assms by simp
  have b: "of_int 0 \<le> M / of_nat rc" "M / of_nat rc \<le> of_int 128" if "1 \<le> rc" for rc :: nat
  proof -
    show "of_int 0 \<le> M / of_nat rc" using assms(1) by simp
    have "M / of_nat rc \<le> M / 1"
      using that assms(1) by (intro divide_left_mono) simp_all
    then show "M / of_nat rc \<le> of_int 128" using assms(2) by simp
  qed
  have 1: "jdiv (Fin M) (Fin (of_nat rc1)) = Fin (quot M rc1)"
    by (rule quot_between(1) [OF assms(3) b [OF assms(3)]]) simp_all
  have 2: "jdiv (Fin M) (Fin (of_nat rc2)) = Fin (quot M rc2)"
    by (rule quot_between(1) [OF rc2 b [OF rc2]]) simp_all
  have "M / of_nat rc2 \<le> M / of_nat rc1"
    using assms by (intro divide_left_mono) simp_all
  then have "jle (round64 (M / of_nat rc2)) (round64 (M / of_nat rc1))"
    by (rule round64_mono)
  then have "jle (jdiv (Fin M) (Fin (of_nat rc2))) (jdiv (Fin M) (Fin (of_nat rc1)))"
    using assms(3) rc2 by simp
  then show ?thesis by (simp only: 1 2 jle_simps)
qed


lemma layout_height:
  assumes M: "90 \<le> M" "M \<le> 96" and rc: "1 \<le> rc"
  shows "finalMinCellHeight (layout (Fin M) rc) =
     Fin (if rc \<le> 5 then quot M rc else if rc \<le> 15 then max 8 (quot M rc)
          else if rc \<le> 25 then 6 else 5)"
    and "rc \<le> 5 \<Longrightarrow> 18 \<le> quot M rc"
    and "5 < rc \<Longrightarrow> quot M rc \<le> 16"
proof -
  have pos: "(0::rat) < of_nat rc" using rc by simp
  have t0: "of_int 18 \<le> M / of_nat rc" if "rc \<le> 5"
  proof -
    have "(of_nat rc :: rat) \<le> 5" using that by (metis of_nat_le_iff of_nat_numeral)
    then show ?thesis using pos M(1) by (simp add: field_simps)
  qed
  have up: "M / of_nat rc \<le> of_int 128"
  proof -
    have "M / of_nat rc \<le> M / 1"
      using rc M(1) by (intro divide_left_mono) simp_all
    then show ?thesis using M(2) by simp
  qed
  have lo: "of_int 0 \<le> M / of_nat rc" using M(1) by simp
  have le: "M / of_nat rc \<le> of_int (int c)" if "96 \<le> c * n" "n \<le> rc" for c n :: nat
  proof -
    have "(96::rat) \<le> of_nat (c * n)" using that(1) by (metis of_nat_le_iff of_nat_numeral)
    also have "\<dots> \<le> of_nat c * of_nat rc"
      using that(2) by (simp add: mult_left_mono)
    finally show ?thesis using pos M(2) by (simp add: field_simps)
  qed
  show q18: "18 \<le> quot M rc" if "rc \<le> 5"
    using quot_between(2) [OF rc t0 [OF that] up] by simp
  show q16: "quot M rc \<le> 16" if "5 < rc"
    using quot_between(3) [OF rc lo le [of 16 6]] that by simp
  have q6: "quot M rc \<le> 6" if "15 < rc"
    using quot_between(3) [OF rc lo le [of 6 16]] that by simp
  have q4: "quot M rc \<le> 4" if "25 < rc"
    using quot_between(3) [OF rc lo le [of 4 26]] that by simp
  have d: "jdiv (Fin M) (Fin (of_nat rc)) = Fin (quot M rc)"
    by (rule quot_between(1) [OF rc lo up]) simp_all
  consider "rc \<le> 5" | "5 < rc" "rc \<le> 15" | "15 < rc" "rc \<le> 25" | "25 < rc"
    by linarith
  then show "finalMinCellHeight (layout (Fin M) rc) =
     Fin (if rc \<le> 5 then quot M rc else if rc \<le> 15 then max 8 (quot M rc)
          else if rc \<le> 25 then 6 else 5)"
  proof cases
    case 1
    then show ?thesis
      unfolding layout_def Let_def d using q18 [OF 1] by (simp add: max_def)
  next
    case 2
    then show ?thesis
      unfolding layout_def Let_def d by (simp add: max_def)
  next
    case 3
    then show ?thesis
      unfolding layout_def Let_def d using q6 [OF 3(1)] by (simp add: max_def)
  next
    case 4
    then show ?thesis
      unfolding layout_def Let_def d using q4 [OF 4] by (simp add: max_def)
  qed
qed

lemma layout_font:
  "finalFontSize (layout m rc) =
     Fin (if rc \<le> 5 then 10 else if rc \<le> 15 then 9 else if rc \<le> 25 then 8 else 7)"
  by (simp add: layout_def Let_def)

lemma layout_height_mono:
  assumes M: "90 \<le> M" "M \<le> 96" and rc: "1 \<le> rc1" "rc1 \<le> rc2"
  shows "jle (finalMinCellHeight (layout (Fin M) rc2)) (finalMinCellHeight (layout (Fin M) rc1))"
    and "tier rc1 < tier rc2 \<Longrightarrow>
      jless (finalMinCellHeight (layout (Fin M) rc2)) (finalMinCellHeight (layout (Fin M) rc1))"
proof -
  have rc2: "1 \<le> rc2" using rc by simp
  have a: "quot M rc2 \<le> quot M rc1"
    using M rc by (intro quot_antitone) simp_all
  note h1 = layout_height [OF M rc(1)] and h2 = layout_height [OF M rc2]
  consider "rc2 \<le> 5" | "rc1 \<le> 5" "5 < rc2" | "5 < rc1" "rc2 \<le> 15"
    | "5 < rc1" "rc1 \<le> 15" "15 < rc2" | "15 < rc1" "rc2 \<le> 25"
    | "15 < rc1" "rc1 \<le> 25" "25 < rc2" | "25 < rc1"
    using rc(2) by linarith
  then have "jle (finalMinCellHeight (layout (Fin M) rc2)) (finalMinCellHeight (layout (Fin M) rc1))
    \<and> (tier rc1 < tier rc2 \<longrightarrow>
      jless (finalMinCellHeight (layout (Fin M) rc2)) (finalMinCellHeight (layout (Fin M) rc1)))"
  proof cases
    case 1
    then show ?thesis
      unfolding h1(1) h2(1) using a rc(2) by (simp add: tier_def)
  next
    case 2
    then show ?thesis
      unfolding h1(1) h2(1) using h1(2) h2(3) by (simp add: tier_def max_def)
  next
    case 3
    then show ?thesis
      unfolding h1(1) h2(1) using a rc(2) by (simp add: tier_def max_def)
  next
    case 4
    then show ?thesis
      unfolding h1(1) h2(1) by (simp add: tier_def max_def)
  next
    case 5
    then show ?thesis
      unfolding h1(1) h2(1) using rc(2) by (simp add: tier_def)
  next
    case 6
    then show ?thesis
      unfolding h1(1) h2(1) by (simp add: tier_def)
  next
    case 7
    then show ?thesis
      unfolding h1(1) h2(1) using rc(2) by (simp add: tier_def)
  qed
  then show "jle (finalMinCellHeight (layout (Fin M) rc2)) (finalMinCellHeight (layout (Fin M) rc1))"
    and "tier rc1 < tier rc2 \<Longrightarrow>
      jless (finalMinCellHeight (layout (Fin M) rc2)) (finalMinCellHeight (layout (Fin M) rc1))"
    by simp_all
qed


lemma layout_alt_height:
  assumes A: "108 \<le> A" "A \<le> 114" and rc: "1 \<le> rc"
  shows "finalMinCellHeight (layout_alt (Fin A) rc) = Fin (max 6 (min 12 (quot A rc)))"
    and "rc \<le> 9 \<Longrightarrow> 12 \<le> quot A rc"
    and "19 \<le> rc \<Longrightarrow> quot A rc \<le> 6"
proof -
  have pos: "(0::rat) < of_nat rc" using rc by simp
  have up: "A / of_nat rc \<le> of_int 128"
  proof -
    have "A / of_nat rc \<le> A / 1"
      using rc A(1) by (intro divide_left_mono) simp_all
    then show ?thesis using A(2) by simp
  qed
  have lo: "of_int 0 \<le> A / of_nat rc" using A(1) by simp
  have t0: "of_int 12 \<le> A / of_nat rc" if "rc \<le> 9"
  proof -
    have "(of_nat rc :: rat) \<le> 9" using that by (metis of_nat_le_iff of_nat_numeral)
    then show ?thesis using pos A(1) by (simp add: field_simps)
  qed
  have t1: "A / of_nat rc \<le> of_int 6" if "19 \<le> rc"
  proof -
    have "(19::rat) \<le> of_nat rc" using that by (metis of_nat_le_iff of_nat_numeral)
    then show ?thesis using pos A(2) by (simp add: field_simps)
  qed
  show "12 \<le> quot A rc" if "rc \<le> 9"
    using quot_between(2) [OF rc t0 [OF that] up] by simp
  show "quot A rc \<le> 6" if "19 \<le> rc"
    using quot_between(3) [OF rc lo t1 [OF that]] by simp
  have d: "jdiv (Fin A) (Fin (of_nat rc)) = Fin (quot A rc)"
    by (rule quot_between(1) [OF rc lo up]) simp_all
  show "finalMinCellHeight (layout_alt (Fin A) rc) = Fin (max 6 (min 12 (quot A rc)))"
    unfolding layout_alt_def Let_def d by simp
qed

lemma layout_alt_font:
  "finalFontSize (layout_alt a rc) = Fin (if 20 < rc then 7 else 8)"
  by (simp add: layout_alt_def Let_def)

lemma layout_alt_height_mono:
  assumes A: "108 \<le> A" "A \<le> 114" and rc: "1 \<le> rc1" "rc1 \<le> rc2"
  shows "jle (finalMinCellHeight (layout_alt (Fin A) rc2))
             (finalMinCellHeight (layout_alt (Fin A) rc1))"
proof -
  have rc2: "1 \<le> rc2" using rc by simp
  have "quot A rc2 \<le> quot A rc1"
    using A rc by (intro quot_antitone) simp_all
  then show ?thesis
    unfolding layout_alt_height(1) [OF A rc(1)] layout_alt_height(1) [OF A rc2]
    by (simp add: max_def min_def)
qed

lemma a4_bounds:
  "(90::rat) \<le> 1600916295664591 / 17592186044416" "(1600916295664591 / 17592186044416 :: rat) \<le> 96"
  "(108::rat) \<le> 1987944388641743 / 17592186044416" "(1987944388641743 / 17592186044416 :: rat) \<le> 114"
  by simp_all

lemma rowHeight_alt_few: "1 \<le> rc \<Longrightarrow> rc \<le> 9 \<Longrightarrow> rowHeight_alt rc = Fin 12"
  unfolding rowHeight_alt_def a4_availableTableHeight_alt
  using layout_alt_height(2) [OF a4_bounds(3,4), of rc]
  by (simp add: layout_alt_height(1) [OF a4_bounds(3,4)] max_def min_def)

lemma rowHeight_alt_many: "19 \<le> rc \<Longrightarrow> rowHeight_alt rc = Fin 6"
  unfolding rowHeight_alt_def a4_availableTableHeight_alt
  using layout_alt_height(3) [OF a4_bounds(3,4), of rc]
  by (simp add: layout_alt_height(1) [OF a4_bounds(3,4)] max_def min_def)

text \<open>
  C3, as the claim states it, fails for the renderer of unnamed/part_001: its row height
  is the quotient of the available height by the row count, clamped between 6 and 12.
  On an A4 landscape page it is 12 for 5 rows and still 12 for 6 rows, and 6 for 20 rows
  and still 6 for 21 rows, so it does not strictly decrease when the row count crosses
  5 or 20.
\<close>

theorem layout_alt_counterexample:
  "\<not> jless (rowHeight_alt 6) (rowHeight_alt 5) \<and> \<not> jless (rowHeight_alt 21) (rowHeight_alt 20)"
  by (simp add: rowHeight_alt_few rowHeight_alt_many)

text \<open>
  C3, amended. On an A4 landscape page, in reportService.ts: 5 rows select font size 10,
  the largest, and 30 rows select font size 7, the smallest; when the row count grows,
  neither the font size nor the minimum row height increases; and when the row count
  moves to a later tier (up to 5, up to 15, up to 25, more), both strictly decrease;
  the font size is 10 up to 5 rows, 9 up to 15, 8 up to 25 and 7 beyond.
  In unnamed/part_001: the font size is 8 up to 20 rows and 7 beyond; the row height is
  the available height (113.0016 mm on this page, as a binary64 number) divided by the
  row count, but at most 12 and at least 6; it is 12 for 5 rows and 6 for 30 rows; and
  neither increases when the row count grows.
\<close>

theorem layout_step_function:
  "fontSize 5 = Fin 10 \<and> fontSize 30 = Fin 7
   \<and> (1 \<le> rc1 \<and> rc1 \<le> rc2 \<longrightarrow>
        jle (fontSize rc2) (fontSize rc1) \<and> jle (rowHeight rc2) (rowHeight rc1))
   \<and> (1 \<le> rc1 \<and> tier rc1 < tier rc2 \<longrightarrow>
        jless (fontSize rc2) (fontSize rc1) \<and> jless (rowHeight rc2) (rowHeight rc1))
   \<and> fontSize_alt 5 = Fin 8 \<and> fontSize_alt 30 = Fin 7
   \<and> rowHeight_alt 5 = Fin 12 \<and> rowHeight_alt 30 = Fin 6
   \<and> (1 \<le> rc1 \<and> rc1 \<le> rc2 \<longrightarrow>
        jle (fontSize_alt rc2) (fontSize_alt rc1) \<and> jle (rowHeight_alt rc2) (rowHeight_alt rc1))
   \<and> fontSize rc =
        Fin (if rc \<le> 5 then 10 else if rc \<le> 15 then 9 else if rc \<le> 25 then 8 else 7)
   \<and> fontSize_alt rc = Fin (if 20 < rc then 7 else 8)
   \<and> rowHeight_alt rc =
        Math_max (Fin 6) (Math_min (Fin 12)
          (jdiv (availableTableHeight_alt a4LandscapeHeight) (Fin (of_nat rc))))
   \<and> availableTableHeight_alt a4LandscapeHeight = Fin (1987944388641743 / 17592186044416)"
proof -
  note v1 = layout_height_mono [OF a4_bounds(1,2), folded a4_maxTableHeight rowHeight_def]
  note alt = layout_alt_height_mono [OF a4_bounds(3,4),
      folded a4_availableTableHeight_alt rowHeight_alt_def]
  have f: "fontSize rc =
      Fin (if rc \<le> 5 then 10 else if rc \<le> 15 then 9 else if rc \<le> 25 then 8 else 7)" for rc
    by (simp add: fontSize_def layout_font)
  have fa: "fontSize_alt rc = Fin (if 20 < rc then 7 else 8)" for rc
    by (simp add: fontSize_alt_def layout_alt_font)
  have lt: "rc1 \<le> rc2" if "tier rc1 < tier rc2"
    using that by (simp add: tier_def split: if_splits)
  have 1: "fontSize 5 = Fin 10 \<and> fontSize 30 = Fin 7" by (simp add: f)
  have 2: "1 \<le> rc1 \<and> rc1 \<le> rc2 \<longrightarrow>
        jle (fontSize rc2) (fontSize rc1) \<and> jle (rowHeight rc2) (rowHeight rc1)"
    using v1(1) [of rc1 rc2] by (simp add: f)
  have 3: "1 \<le> rc1 \<and> tier rc1 < tier rc2 \<longrightarrow>
        jless (fontSize rc2) (fontSize rc1) \<and> jless (rowHeight rc2) (rowHeight rc1)"
    using v1(2) [of rc1 rc2] lt by (auto simp: f tier_def split: if_splits)
  have 4: "fontSize_alt 5 = Fin 8 \<and> fontSize_alt 30 = Fin 7
      \<and> rowHeight_alt 5 = Fin 12 \<and> rowHeight_alt 30 = Fin 6"
    by (simp add: fa rowHeight_alt_few rowHeight_alt_many)
  have 5: "1 \<le> rc1 \<and> rc1 \<le> rc2 \<longrightarrow>
        jle (fontSize_alt rc2) (fontSize_alt rc1) \<and> jle (rowHeight_alt rc2) (rowHeight_alt rc1)"
    using alt [of rc1 rc2] by (simp add: fa)
  have 6: "rowHeight_alt rc =
      Math_max (Fin 6) (Math_min (Fin 12)
        (jdiv (availableTableHeight_alt a4LandscapeHeight) (Fin (of_nat rc))))"
    by (simp add: rowHeight_alt_def layout_alt_def Let_def)
  note 7 = a4_availableTableHeight_alt
  from 1 2 3 4 5 6 7 f [of rc] fa [of rc] show ?thesis by blast
qed

text \<open>The layouts for 5 rows and for 6 rows, which lie in different tiers.\<close>

theorem layout_step_function_witness:
  "jless (fontSize 6) (fontSize 5) \<and> jless (rowHeight 6) (rowHeight 5)
   \<and> jle (fontSize 6) (fontSize 5) \<and> jle (rowHeight 6) (rowHeight 5)
   \<and> jle (fontSize_alt 6) (fontSize_alt 5) \<and> jle (rowHeight_alt 6) (rowHeight_alt 5)"
proof -
  have p: "(1::nat) \<le> 5 \<and> (5::nat) \<le> 6" by simp
  have t: "(1::nat) \<le> 5 \<and> tier 5 < tier 6" by (simp add: tier_def)
  from layout_step_function [of 5 6 5] p t show ?thesis by blast
qed

section \<open>The signature block\<close>

lemma alt_margin_a: "jadd (Fin (10)) (Fin (5)) = Fin (15)"
  by (simp add: round64_pos_eval [where k = "3"] round_half_even_numeral round_half_even_numeral_int Let_def)

lemma alt_margin_b: "jadd (Fin (10)) (Fin (55)) = Fin (65)"
  by (simp add: round64_pos_eval [where k = "6"] round_half_even_numeral round_half_even_numeral_int Let_def)

lemma fold_draw: "fold draw ds doc = doc \<lparr> drawn := drawn doc @ map (Pair (page doc)) ds \<rparr>"
  by (induction ds arbitrary: doc) (simp_all add: draw_def)

lemma generatePDF_doc:
  "fst (generatePDF fmt pageWidth pageHeight tbl header items totals filename) =
     (let p = (if jgreater (snd tbl) (jsub (signatureBlockY pageHeight) (Fin 10))
               then fst tbl + 2 else fst tbl + 1)
      in \<lparr> pages = p, page = p,
           drawn = (1, Table tableColumn (tableRows fmt items totals)
                         (layout (maxTableHeight pageHeight) (rowCount items)) tableStartY)
                   # map (Pair p) (signatureBlock pageWidth (signatureBlockY pageHeight)),
           finalY = snd tbl \<rparr>)"
  by (simp add: generatePDF_def Let_def fold_draw autoTable_def draw_def newDoc_def
      signaturePage_def addPage_def)

lemma generatePDF_alt_doc:
  "fst (generatePDF_alt pageWidth pageHeight tbl head body items filename) =
     \<lparr> pages = fst tbl + 1, page = fst tbl + 1,
       drawn = (1, Table head body
                     (layout_alt (availableTableHeight_alt pageHeight) (rowCount_alt items))
                     tableStartY_alt)
               # map (Pair (fst tbl + 1))
                   (signatureBlock_alt pageWidth (signatureBlockY_alt pageHeight)),
       finalY = snd tbl \<rparr>"
  by (simp add: generatePDF_alt_def Let_def fold_draw autoTable_def draw_def newDoc_def)

lemma a4_threshold:
  "jsub (signatureBlockY a4LandscapeHeight) (Fin 10) = Fin (3025883365262287 / 17592186044416)"
  unfolding a4_signatureBlockY v1_sub_e ..

lemma a4_label_height:
  "jadd (signatureBlockY a4LandscapeHeight) (Fin 4) = Fin (3272173969884111 / 17592186044416)"
  unfolding a4_signatureBlockY v1_add_c ..

lemma a4_threshold_alt:
  "jsub (signatureBlockY_alt a4LandscapeHeight) signatureGap_alt
     = Fin (3043475551306703 / 17592186044416)"
  unfolding a4_signatureBlockY_alt signatureGap_alt_def alt_sub_e ..

text \<open>
  In reportService.ts: on an A4 landscape page, whatever the table's extent, a table
  that ends below signatureBlockY - 10 gets a new page for the signature block, and
  the block never touches the table.
\<close>

lemma signature_fallback:
  "(jgreater (snd tbl) (jsub (signatureBlockY a4LandscapeHeight) (Fin 10)) \<longrightarrow>
      pages (fst (generatePDF fmt pageWidth a4LandscapeHeight tbl header items totals filename))
        = fst tbl + 2
      \<and> map fst (tl (drawn (fst (generatePDF fmt pageWidth a4LandscapeHeight tbl header items
            totals filename)))) = [fst tbl + 2, fst tbl + 2, fst tbl + 2, fst tbl + 2])
   \<and> list_all (\<lambda>pd. \<not> touches 1 tableStartY (fst tbl + 1) (snd tbl) pd)
        (tl (drawn (fst (generatePDF fmt pageWidth a4LandscapeHeight tbl header items
            totals filename))))"
proof (cases "jgreater (snd tbl) (jsub (signatureBlockY a4LandscapeHeight) (Fin 10))")
  case True
  then show ?thesis
    by (simp add: generatePDF_doc Let_def signatureBlock_def touches_def)
next
  case False
  then have "\<not> jle (Fin (3201805225706447 / 17592186044416)) (snd tbl)"
    and "\<not> jle (Fin (3272173969884111 / 17592186044416)) (snd tbl)"
    unfolding a4_threshold jgreater_def by (cases "snd tbl"; simp)+
  with False show ?thesis
    unfolding generatePDF_doc Let_def signatureBlock_def
    unfolding a4_threshold a4_label_height
    unfolding a4_signatureBlockY
    by (simp add: touches_def)
qed

text \<open>
  C5 fails for the renderer of unnamed/part_001, which draws the signature block on the
  current page without looking at the end of the table. On an A4 landscape page, with
  20 items and a table that ends on the first page at 195 mm, the end of the table lies
  beyond the signature anchor minus the gap of 20 mm; the document still has one page,
  and the first signature line is drawn on that page at the signature anchor, a height
  that the table occupies.
\<close>

theorem signature_overlap_alt:
  "jgreater (Fin 195) (jsub (signatureBlockY_alt a4LandscapeHeight) signatureGap_alt)
   \<and> pages (fst (generatePDF_alt pageWidth a4LandscapeHeight (0, Fin 195) head body
        (replicate 20 (newRow [])) filename)) = 1
   \<and> drawn (fst (generatePDF_alt pageWidth a4LandscapeHeight (0, Fin 195) head body
        (replicate 20 (newRow [])) filename)) ! 1
      = (1, Line (Fin 15) (signatureBlockY_alt a4LandscapeHeight)
                 (Fin 65) (signatureBlockY_alt a4LandscapeHeight))
   \<and> touches 1 tableStartY_alt 1 (Fin 195)
        (drawn (fst (generatePDF_alt pageWidth a4LandscapeHeight (0, Fin 195) head body
           (replicate 20 (newRow [])) filename)) ! 1)"
  unfolding a4_threshold_alt
  unfolding generatePDF_alt_doc signatureBlock_alt_def a4_signatureBlockY_alt
    alt_margin_a alt_margin_b touches_def tableStartY_alt_value
  by (simp add: jgreater_def)

end
